theory Spec2Isabelle
  imports Main "HOL-Library.Sublist"
begin

section \<open>Python values and their string forms\<close>

text \<open>
  The rows that \<^verbatim>\<open>cursor.fetchall()\<close> returns are Python objects, and the template's
  \<^verbatim>\<open>join\<close> filter turns each of them into text with Python's \<^verbatim>\<open>str\<close>. The values
  modelled are \<^verbatim>\<open>None\<close>, integers, strings and (nested) tuples. A Python string is a
  list of code points; the model covers the code points below 256, one \<^typ>\<open>char\<close> each.
  Floats, dates and driver objects (whose text form may hold a memory address) are outside
  the model.
\<close>

datatype pyval = PNone | PInt int | PStr string | PTuple "pyval list"

text \<open>\<^verbatim>\<open>sep.join(xs)\<close> of Python.\<close>

fun str_join :: "string \<Rightarrow> string list \<Rightarrow> string" where
  "str_join sep [] = []"
| "str_join sep [x] = x"
| "str_join sep (x # y # ys) = x @ sep @ str_join sep (y # ys)"

text \<open>Decimal digits of a natural number, and \<^verbatim>\<open>repr\<close> of an integer.\<close>

fun dec :: "nat \<Rightarrow> string" where
  "dec n = (if n < 10 then [''0123456789'' ! n]
            else dec (n div 10) @ [''0123456789'' ! (n mod 10)])"

declare dec.simps [simp del]

definition int_repr :: "int \<Rightarrow> string" where
  "int_repr i = (if i < 0 then CHR ''-'' # dec (nat (- i)) else dec (nat i))"

text \<open>
  \<^verbatim>\<open>repr\<close> of a string, as CPython's \<^verbatim>\<open>unicode_repr\<close> computes it: the quote is the
  double quote exactly when the string holds a single quote and no double quote; the chosen
  quote and the backslash are escaped with a backslash; tab, line feed and carriage return
  are written \<^verbatim>\<open>\t\<close>, \<^verbatim>\<open>\n\<close>, \<^verbatim>\<open>\r\<close>; every other non-printable code point below
  256 is written \<^verbatim>\<open>\xhh\<close> with two lower-case hexadecimal digits; every other character
  is copied.
\<close>

definition backslash :: char where
  "backslash = CHR 0x5C"

definition squote :: char where
  "squote = CHR 0x27"

definition dquote :: char where
  "dquote = CHR 0x22"

definition newline :: char where
  "newline = CHR 0x0A"

definition hexdigit :: "nat \<Rightarrow> char" where
  "hexdigit n = ''0123456789abcdef'' ! n"

definition isprintable :: "char \<Rightarrow> bool" where
  "isprintable c = (let n = (of_char c :: nat) in (32 \<le> n \<and> n < 127) \<or> (161 \<le> n \<and> n \<noteq> 173))"

definition repr_quote :: "string \<Rightarrow> char" where
  "repr_quote s = (if squote \<in> set s \<and> dquote \<notin> set s then dquote else squote)"

definition repr_char :: "char \<Rightarrow> char \<Rightarrow> string" where
  "repr_char q c =
     (if c = q \<or> c = backslash then [backslash, c]
      else if c = CHR 0x09 then [backslash, CHR ''t'']
      else if c = CHR 0x0A then [backslash, CHR ''n'']
      else if c = CHR 0x0D then [backslash, CHR ''r'']
      else if isprintable c then [c]
      else [backslash, CHR ''x'', hexdigit (of_char c div 16), hexdigit (of_char c mod 16)])"

definition str_repr :: "string \<Rightarrow> string" where
  "str_repr s = (let q = repr_quote s in q # concat (map (repr_char q) s) @ [q])"

text \<open>
  \<^verbatim>\<open>repr\<close> of a value. A tuple is its components' \<^verbatim>\<open>repr\<close>s joined with a comma and
  a space, in parentheses, with a trailing comma when it has exactly one component.
\<close>

fun py_repr :: "pyval \<Rightarrow> string" where
  "py_repr PNone = ''None''"
| "py_repr (PInt i) = int_repr i"
| "py_repr (PStr s) = str_repr s"
| "py_repr (PTuple vs) =
     ''('' @ str_join '', '' (map py_repr vs) @ (if length vs = 1 then '',)'' else '')'')"

text \<open>\<^verbatim>\<open>str\<close> of a value: a string is itself, every other value is its \<^verbatim>\<open>repr\<close>.\<close>

fun py_str :: "pyval \<Rightarrow> string" where
  "py_str (PStr s) = s"
| "py_str v = py_repr v"

fun is_tuple :: "pyval \<Rightarrow> bool" where
  "is_tuple (PTuple vs) = True"
| "is_tuple v = False"


section \<open>The check catalog and the results\<close>

text \<open>
  A check of \<^verbatim>\<open>cis_checks\<close> is a dictionary with the six keys \<^verbatim>\<open>id\<close>, \<^verbatim>\<open>desc\<close>,
  \<^verbatim>\<open>query\<close>, \<^verbatim>\<open>risk\<close>, \<^verbatim>\<open>fix_type\<close> and \<^verbatim>\<open>remediation\<close>, all strings. A result is
  the dictionary appended to \<^verbatim>\<open>results\<close>: the check's keys but \<^verbatim>\<open>query\<close>, and
  \<^verbatim>\<open>output\<close>, a Python list. The fields carry the prefix \<open>c_\<close> or \<open>r_\<close> of their record.
\<close>

record check =
  c_id :: string
  c_desc :: string
  c_query :: string
  c_risk :: string
  c_fix_type :: string
  c_remediation :: string

record result =
  r_id :: string
  r_desc :: string
  r_risk :: string
  r_fix_type :: string
  r_remediation :: string
  r_output :: "pyval list"

definition cis_checks :: "check list" where
  "cis_checks =
    [\<lparr>c_id = ''1.1'', c_desc = ''Ensure auditing is enabled'',
      c_query = ''SELECT value FROM v$parameter WHERE name = 'audit_trail'' @ [squote],
      c_risk = ''High'', c_fix_type = ''Quick'',
      c_remediation = ''Set 'audit_trail=DB,EXTENDED' in init.ora or spfile''\<rparr>,
     \<lparr>c_id = ''2.1'', c_desc = ''Password complexity enforced'',
      c_query = ''SELECT profile, resource_name, limit '' @ [newline] @
                ''                    FROM dba_profiles '' @ [newline] @
                ''                    WHERE resource_name = 'PASSWORD_VERIFY_FUNCTION'' @ [squote],
      c_risk = ''Medium'', c_fix_type = ''Planned'',
      c_remediation = ''Assign strong password functions to user profiles''\<rparr>,
     \<lparr>c_id = ''3.1'', c_desc = ''DBA role misuse'',
      c_query = ''SELECT grantee FROM dba_role_privs '' @ [newline] @
                ''                    WHERE granted_role = 'DBA'' @ [squote],
      c_risk = ''High'', c_fix_type = ''Involved'',
      c_remediation = ''Limit DBA role assignment to only authorized users''\<rparr>,
     \<lparr>c_id = ''4.1'', c_desc = ''Failed login audit check'',
      c_query = ''SELECT username, timestamp, returncode '' @ [newline] @
                ''                    FROM dba_audit_session '' @ [newline] @
                ''                    WHERE returncode != 0 AND ROWNUM <= 5'',
      c_risk = ''Medium'', c_fix_type = ''Quick'',
      c_remediation = ''Enable audit for session logon failures''\<rparr>,
     \<lparr>c_id = ''5.1'', c_desc = ''Check for default user accounts'',
      c_query = ''SELECT username, account_status '' @ [newline] @
                ''                    FROM dba_users '' @ [newline] @
                ''                    WHERE username IN ('SCOTT','HR','OUTLN')'',
      c_risk = ''Low'', c_fix_type = ''Quick'',
      c_remediation = ''Lock/remove unused default accounts''\<rparr>]"


section \<open>The database driver and the audit loop\<close>

text \<open>
  The driver (\<^verbatim>\<open>cx_Oracle\<close>) is outside the repository: it is a parameter of the model, a
  record of functions over a database state \<open>'db\<close> of any type.
  \<^item> \<open>makedsn host port service\<close> builds the DSN string;
  \<^item> \<open>connect user password dsn\<close> returns a session, or \<open>Inl msg\<close> when it raises
    \<^verbatim>\<open>cx_Oracle.Error\<close>, \<open>msg\<close> the text of the error;
  \<^item> \<open>execute db q\<close> runs a statement: \<open>Some msg\<close> when it raises an exception \<open>e\<close> with
    \<^verbatim>\<open>str(e) = msg\<close>, and the database state after the call either way;
  \<^item> \<open>fetchall db\<close> returns the rows as a Python list, or raises likewise.
  The exceptions modelled are those of class \<^verbatim>\<open>Exception\<close>, which the handler of the
  audit loop catches; an interrupt of the process is not an outcome of a driver call.
  \<^verbatim>\<open>connection.cursor()\<close>, \<^verbatim>\<open>cursor.close()\<close> and \<^verbatim>\<open>connection.close()\<close>, which the
  script calls outside any handler, are taken to return normally.
  The calls made to the driver are logged in \<open>calls\<close>, in the order the script makes them.
\<close>

datatype db_call =
  Connect string string string | Cursor | Execute string | Fetchall
  | Cursor_close | Connection_close

record 'db driver =
  makedsn :: "string \<Rightarrow> string \<Rightarrow> string \<Rightarrow> string"
  connect :: "string \<Rightarrow> string \<Rightarrow> string \<Rightarrow> string + 'db"
  execute :: "'db \<Rightarrow> string \<Rightarrow> string option \<times> 'db"
  fetchall :: "'db \<Rightarrow> (string + pyval list) \<times> 'db"

record 'db session =
  db :: 'db
  calls :: "db_call list"

definition cursor_execute :: "'db driver \<Rightarrow> string \<Rightarrow> 'db session \<Rightarrow> string option \<times> 'db session" where
  "cursor_execute drv q s =
     (case execute drv (db s) q of
        (e, d) \<Rightarrow> (e, \<lparr>db = d, calls = calls s @ [Execute q]\<rparr>))"

definition cursor_fetchall :: "'db driver \<Rightarrow> 'db session \<Rightarrow> (string + pyval list) \<times> 'db session" where
  "cursor_fetchall drv s =
     (case fetchall drv (db s) of
        (r, d) \<Rightarrow> (r, \<lparr>db = d, calls = calls s @ [Fetchall]\<rparr>))"

text \<open>
  The body of the \<^verbatim>\<open>try\<close>: \<^verbatim>\<open>cursor.execute(check["query"])\<close>, then
  \<^verbatim>\<open>cursor.fetchall()\<close>, which is not reached when \<^verbatim>\<open>execute\<close> raises.
\<close>

definition try_query :: "'db driver \<Rightarrow> string \<Rightarrow> 'db session \<Rightarrow> (string + pyval list) \<times> 'db session" where
  "try_query drv q s =
     (case cursor_execute drv q s of
        (Some e, s1) \<Rightarrow> (Inl e, s1)
      | (None, s1) \<Rightarrow> cursor_fetchall drv s1)"

text \<open>
  The value of \<^verbatim>\<open>output\<close> after the \<^verbatim>\<open>try\<close> statement: the rows, or in the handler
  \<^verbatim>\<open>[(f"Error: {str(e)}",)]\<close>, a list of one tuple of one string.
\<close>

definition handle_output :: "string + pyval list \<Rightarrow> pyval list" where
  "handle_output r =
     (case r of
        Inr rows \<Rightarrow> rows
      | Inl e \<Rightarrow> [PTuple [PStr (''Error: '' @ e)]])"

definition run_check :: "'db driver \<Rightarrow> check \<Rightarrow> 'db session \<Rightarrow> result \<times> 'db session" where
  "run_check drv c s =
     (case try_query drv (c_query c) s of
        (r, s') \<Rightarrow>
          (\<lparr>r_id = c_id c, r_desc = c_desc c, r_risk = c_risk c, r_fix_type = c_fix_type c,
            r_remediation = c_remediation c, r_output = handle_output r\<rparr>, s'))"

text \<open>
  The loop \<^verbatim>\<open>for check in cis_checks\<close>: \<open>results\<close> is the list built so far, to which each
  pass appends one result.
\<close>

fun audit_loop :: "'db driver \<Rightarrow> check list \<Rightarrow> result list \<Rightarrow> 'db session \<Rightarrow> result list \<times> 'db session" where
  "audit_loop drv [] results s = (results, s)"
| "audit_loop drv (c # cs) results s =
     (case run_check drv c s of (r, s') \<Rightarrow> audit_loop drv cs (results @ [r]) s')"

text \<open>The audit of a catalog from \<^verbatim>\<open>results = []\<close>.\<close>

definition audit :: "'db driver \<Rightarrow> check list \<Rightarrow> 'db session \<Rightarrow> result list \<times> 'db session" where
  "audit drv catalog s = audit_loop drv catalog [] s"

text \<open>The fields a result copies from its check.\<close>

definition check_fields :: "check \<Rightarrow> string \<times> string \<times> string \<times> string \<times> string" where
  "check_fields c = (c_id c, c_desc c, c_risk c, c_fix_type c, c_remediation c)"

definition result_fields :: "result \<Rightarrow> string \<times> string \<times> string \<times> string \<times> string" where
  "result_fields r = (r_id r, r_desc r, r_risk r, r_fix_type r, r_remediation r)"

section \<open>The report template\<close>

text \<open>
  The template is rendered by Jinja2 with the defaults of \<^verbatim>\<open>Environment\<close>: no
  autoescaping, blocks neither trimmed nor stripped, and the one line feed that ends the
  template source dropped. The template's text is given line by line; \<open>text_lines\<close> ends
  each line with a line feed.
\<close>

definition text_lines :: "string list \<Rightarrow> string" where
  "text_lines ls = concat (map (\<lambda>l. l @ [newline]) ls)"

text \<open>The lines of the style sheet, between \<^verbatim>\<open><style>\<close> and \<^verbatim>\<open></style>\<close>.\<close>

definition template_style_lines :: "string list" where
  "template_style_lines =
     [''        body { font-family: Arial; padding: 20px; }'',
      ''        table { width: 100%; border-collapse: collapse; margin-top: 20px; }'',
      ''        th, td { padding: 10px; border: 1px solid #ccc; vertical-align: top; }'',
      ''        th { background-color: #f0f0f0; }'',
      ''        .High { background-color: #f8d7da; }'',
      ''        .Medium { background-color: #fff3cd; }'',
      ''        .Low { background-color: #d4edda; }'',
      ''        pre { white-space: pre-wrap; background: #f4f4f4; padding: 8px; }'']"

text \<open>The template from its start to \<^verbatim>\<open>{{ date }}\<close>.\<close>

definition template_head :: string where
  "template_head =
     [newline] @
     text_lines
      ([''<!DOCTYPE html>'',
        ''<html>'',
        ''<head>'',
        ''    <meta charset=\"UTF-8\">'',
        ''    <title>Oracle CIS Audit Report</title>'',
        ''    <style>''] @
       template_style_lines @
       [''    </style>'',
        ''</head>'',
        ''<body>'',
        ''    <h1>Oracle Database CIS Audit Report</h1>'']) @
     ''    <p><strong>Date:</strong> ''"

text \<open>
  From \<^verbatim>\<open>{{ date }}\<close> to \<^verbatim>\<open>{% for item in results %}\<close>: the lines down to the end
  of the table head, then the line that opens the table body and the indentation of the
  \<^verbatim>\<open>for\<close> tag.
\<close>

definition template_thead_lines :: "string list" where
  "template_thead_lines =
     [''</p>'',
      ''    <table>'',
      ''        <thead>'',
      ''            <tr>'',
      ''                <th>Finding ID</th>'',
      ''                <th>Description</th>'',
      ''                <th>Risk Rating</th>'',
      ''                <th>Fix Type</th>'',
      ''                <th>Remediation</th>'',
      ''                <th>Output</th>'',
      ''            </tr>'',
      ''        </thead>'']"

definition template_thead :: string where
  "template_thead =
     text_lines (template_thead_lines @ [''        <tbody>'']) @
     ''        ''"

text \<open>After \<^verbatim>\<open>{% endfor %}\<close>, to the end.\<close>

definition template_tail :: string where
  "template_tail =
     [newline] @
     text_lines
      [''        </tbody>'',
       ''    </table>'',
       ''</body>''] @
     ''</html>''"

text \<open>
  \<^verbatim>\<open>{{ item.output | join('\n') }}\<close>: without autoescaping the filter is
  \<^verbatim>\<open>str(d).join(map(str, value))\<close>; the separator is one line feed.
\<close>

definition item_output :: "pyval list \<Rightarrow> string" where
  "item_output out = str_join [newline] (map py_str out)"

text \<open>
  One pass of the \<^verbatim>\<open>for\<close> block: the text between \<^verbatim>\<open>{% for item in results %}\<close> and
  \<^verbatim>\<open>{% endfor %}\<close>, each \<^verbatim>\<open>{{ ... }}\<close> replaced by the string it prints.
\<close>

definition render_item :: "result \<Rightarrow> string" where
  "render_item item =
     [newline] @
     ''            <tr class=\"'' @ r_risk item @ ''\">'' @ [newline] @
     ''                <td>'' @ r_id item @ ''</td>'' @ [newline] @
     ''                <td>'' @ r_desc item @ ''</td>'' @ [newline] @
     ''                <td>'' @ r_risk item @ ''</td>'' @ [newline] @
     ''                <td>'' @ r_fix_type item @ ''</td>'' @ [newline] @
     ''                <td>'' @ r_remediation item @ ''</td>'' @ [newline] @
     ''                <td><pre>'' @ item_output (r_output item) @ ''</pre></td>'' @ [newline] @
     ''            </tr>'' @ [newline] @
     ''        ''"

fun render_loop :: "result list \<Rightarrow> string" where
  "render_loop [] = []"
| "render_loop (item # items) = render_item item @ render_loop items"

text \<open>\<^verbatim>\<open>template.render(date=date, results=results)\<close>.\<close>

definition render :: "string \<Rightarrow> result list \<Rightarrow> string" where
  "render date results =
     template_head @ date @ template_thead @ render_loop results @ template_tail"


section \<open>Reading the report\<close>

text \<open>
  The script only writes the document. What a reader of the document finds in it (the rows
  of its table body, their classes, the text of its output cells) is defined here, by
  scanning its text. \<open>take_until cl t\<close> is the text of \<open>t\<close> before the first occurrence of
  \<open>cl\<close>; \<open>texts_between op cl t\<close> lists, for each occurrence of \<open>op\<close> in \<open>t\<close>, the text that
  follows it up to the next \<open>cl\<close>.
\<close>

fun take_until :: "string \<Rightarrow> string \<Rightarrow> string" where
  "take_until cl [] = []"
| "take_until cl (c # cs) = (if prefix cl (c # cs) then [] else c # take_until cl cs)"

fun texts_between :: "string \<Rightarrow> string \<Rightarrow> string \<Rightarrow> string list" where
  "texts_between op cl [] = []"
| "texts_between op cl (c # cs) =
     (if prefix op (c # cs) then take_until cl (drop (length op) (c # cs)) # texts_between op cl cs
      else texts_between op cl cs)"

text \<open>The content of the \<^verbatim>\<open>tbody\<close> elements of a document.\<close>

definition table_body :: "string \<Rightarrow> string list" where
  "table_body html = texts_between ''<tbody>'' ''</tbody>'' html"

text \<open>
  White space, and the start tags of a text. A start tag \<^verbatim>\<open><name ...>\<close> begins where the
  text has \<^verbatim>\<open><name\<close> followed by white space, \<^verbatim>\<open>/\<close> or \<^verbatim>\<open>>\<close>, and ends at the first
  \<^verbatim>\<open>>\<close> that is not inside a double-quoted attribute value. \<open>take_tag q t\<close> is the text of
  \<open>t\<close> before that \<^verbatim>\<open>>\<close>, \<open>q\<close> telling whether \<open>t\<close> begins inside a quoted value;
  \<open>start_tags name t\<close> lists, for each start tag \<open>name\<close> of \<open>t\<close>, the text between its name
  and its closing bracket (its attributes).
\<close>

definition is_space :: "char \<Rightarrow> bool" where
  "is_space c = (c = CHR '' '' \<or> c = CHR 0x09 \<or> c = CHR 0x0A \<or> c = CHR 0x0C \<or> c = CHR 0x0D)"

fun take_tag :: "bool \<Rightarrow> string \<Rightarrow> string" where
  "take_tag q [] = []"
| "take_tag q (c # cs) =
     (if c = dquote then c # take_tag (\<not> q) cs
      else if c = CHR ''>'' \<and> \<not> q then []
      else c # take_tag q cs)"

definition is_start_tag :: "string \<Rightarrow> string \<Rightarrow> bool" where
  "is_start_tag name t =
     (prefix (CHR ''<'' # name) t \<and>
      (case drop (Suc (length name)) t of
         [] \<Rightarrow> False
       | d # ds \<Rightarrow> is_space d \<or> d = CHR ''/'' \<or> d = CHR ''>''))"

fun start_tags :: "string \<Rightarrow> string \<Rightarrow> string list" where
  "start_tags name [] = []"
| "start_tags name (c # cs) =
     (if is_start_tag name (c # cs)
      then take_tag False (drop (Suc (length name)) (c # cs)) # start_tags name cs
      else start_tags name cs)"

text \<open>The rows of the table body: the attributes of each \<^verbatim>\<open>tr\<close> start tag there.\<close>

definition body_rows :: "string \<Rightarrow> string list" where
  "body_rows html = concat (map (start_tags ''tr'') (table_body html))"

text \<open>
  The value of the class attribute of a start tag whose attributes begin with it: the text
  between \<^verbatim>\<open>class="\<close> and the next double quote. A reader of the document takes that text
  as it stands only if it holds no \<^verbatim>\<open>&\<close> (which begins a character reference), no carriage
  return (which is read as a line feed) and no NUL (which is replaced); for any other value
  \<open>tag_class\<close> gives no answer.
\<close>

definition read_verbatim :: "char \<Rightarrow> bool" where
  "read_verbatim c = (c \<noteq> CHR ''&'' \<and> c \<noteq> CHR 0x0D \<and> c \<noteq> CHR 0x00)"

definition tag_class :: "string \<Rightarrow> string option" where
  "tag_class attrs =
     (if prefix '' class=\"'' attrs \<and> dquote \<in> set (drop 8 attrs) \<and>
         list_all read_verbatim (take_until [dquote] (drop 8 attrs))
      then Some (take_until [dquote] (drop 8 attrs)) else None)"

text \<open>The text of the \<^verbatim>\<open>pre\<close> elements: the output cells.\<close>

definition output_cells :: "string \<Rightarrow> string list" where
  "output_cells html = texts_between ''<pre>'' ''</pre>'' html"

text \<open>
  Two devices for reasoning about the scans. \<open>may_start op t\<close>: \<open>t\<close> agrees with \<open>op\<close> as far
  as both go, so an occurrence of \<open>op\<close> may begin where \<open>t\<close> begins. \<open>free_of op t\<close>: at no
  position of \<open>t\<close> does an occurrence of \<open>op\<close> begin, not even one that would run past the
  end of \<open>t\<close>.
\<close>

fun may_start :: "string \<Rightarrow> string \<Rightarrow> bool" where
  "may_start [] t = True"
| "may_start (k # ks) [] = True"
| "may_start (k # ks) (c # cs) = (k = c \<and> may_start ks cs)"

fun free_of :: "string \<Rightarrow> string \<Rightarrow> bool" where
  "free_of op [] = True"
| "free_of op (c # cs) = (\<not> may_start op (c # cs) \<and> free_of op cs)"

text \<open>
  A result whose strings hold no markup: no \<open><\<close> in any field nor in the text of the output
  cell, and in the risk, which is also written into an attribute value, no double quote and
  only characters that a reader takes as they stand.
\<close>

definition markup_free :: "result \<Rightarrow> bool" where
  "markup_free item =
     (CHR ''<'' \<notin> set (r_id item) \<and> CHR ''<'' \<notin> set (r_desc item) \<and>
      CHR ''<'' \<notin> set (r_fix_type item) \<and> CHR ''<'' \<notin> set (r_remediation item) \<and>
      CHR ''<'' \<notin> set (item_output (r_output item)) \<and>
      CHR ''<'' \<notin> set (r_risk item) \<and> dquote \<notin> set (r_risk item) \<and>
      list_all read_verbatim (r_risk item))"

text \<open>
  The style sheet of a document, read from the document. \<open>css_rules sheet\<close> lists the rules
  of a style sheet, each with its selector (white space trimmed) and the text of its
  declarations between the braces. A class rule is a rule whose selector is \<^verbatim>\<open>.name\<close>;
  \<open>class_rules html\<close> lists the class rules in the \<^verbatim>\<open>style\<close> elements of a document that
  declare a \<^verbatim>\<open>background-color\<close>, each with its class name and that colour.
\<close>

definition trim :: "string \<Rightarrow> string" where
  "trim s = rev (dropWhile is_space (rev (dropWhile is_space s)))"

fun css_rules_from :: "bool \<Rightarrow> string \<Rightarrow> string \<Rightarrow> string \<Rightarrow> (string \<times> string) list" where
  "css_rules_from inside sel decls [] = []"
| "css_rules_from inside sel decls (c # cs) =
     (if inside then
        (if c = CHR ''}'' then (trim sel, decls) # css_rules_from False [] [] cs
         else css_rules_from True sel (decls @ [c]) cs)
      else
        (if c = CHR ''{'' then css_rules_from True sel [] cs
         else css_rules_from False (sel @ [c]) decls cs))"

definition css_rules :: "string \<Rightarrow> (string \<times> string) list" where
  "css_rules sheet = css_rules_from False [] [] sheet"

definition is_name_char :: "char \<Rightarrow> bool" where
  "is_name_char c =
     (let n = (of_char c :: nat)
      in (48 \<le> n \<and> n \<le> 57) \<or> (65 \<le> n \<and> n \<le> 90) \<or> (97 \<le> n \<and> n \<le> 122) \<or>
         c = CHR ''-'' \<or> c = CHR ''_'')"

definition class_rule_of :: "string \<times> string \<Rightarrow> (string \<times> string) list" where
  "class_rule_of rule =
     (case fst rule of
        [] \<Rightarrow> []
      | c # name \<Rightarrow>
          if c = CHR ''.'' \<and> name \<noteq> [] \<and> list_all is_name_char name
          then map (\<lambda>v. (name, trim v)) (texts_between ''background-color:'' '';'' (snd rule))
          else [])"

definition style_sheets :: "string \<Rightarrow> string list" where
  "style_sheets html = texts_between ''<style>'' ''</style>'' html"

definition class_rules :: "string \<Rightarrow> (string \<times> string) list" where
  "class_rules html = concat (map class_rule_of (concat (map css_rules (style_sheets html))))"

text \<open>
  The class rules that apply to an element. A class attribute is a list of names separated
  by white space, and the rule \<^verbatim>\<open>.name\<close> applies to an element when \<open>name\<close> is one of
  them. \<open>row_styles html cls\<close> lists the background colours that the class rules of the
  document \<open>html\<close> give an element of it whose class attribute is \<open>cls\<close>.
\<close>

fun split_names :: "string \<Rightarrow> string \<Rightarrow> string list" where
  "split_names w [] = (if w = [] then [] else [w])"
| "split_names w (c # cs) =
     (if is_space c then (if w = [] then [] else [w]) @ split_names [] cs
      else split_names (w @ [c]) cs)"

definition class_names :: "string \<Rightarrow> string list" where
  "class_names cls = split_names [] cls"

definition row_styles :: "string \<Rightarrow> string \<Rightarrow> string list" where
  "row_styles html cls =
     map snd (filter (\<lambda>rule. fst rule \<in> set (class_names cls)) (class_rules html))"

text \<open>
  The characters that are special in a document: \<open><\<close>, \<open>>\<close>, \<open>&\<close> and the double quote.
\<close>

definition html_special :: "char \<Rightarrow> bool" where
  "html_special c = (c = CHR ''<'' \<or> c = CHR ''>'' \<or> c = CHR ''&'' \<or> c = dquote)"


section \<open>The script\<close>

text \<open>
  The script from its first line to its last, as a function of what it reads: the five
  answers typed at the prompts, the two readings of the clock (one for the file name, one for
  the date in the report), the driver and the file system. It returns what it leaves: how
  the process ended, the lines printed, the file system and the calls made to the driver.
  The catalog is a parameter; \<open>main\<close> is the script with its own catalog.
\<close>

record inputs =
  host :: string
  port :: string
  service :: string
  user :: string
  password :: string

record datetime =
  year :: nat
  month :: nat
  day :: nat
  hour :: nat
  minute :: nat
  second :: nat

text \<open>
  \<^verbatim>\<open>strftime\<close> with the two formats of the script. Every field but the year is two digits,
  padded with a zero; the year is written in decimal (four digits from the year 1000 on).
\<close>

definition pad2 :: "nat \<Rightarrow> string" where
  "pad2 n = (if n < 10 then CHR ''0'' # dec n else dec n)"

definition strftime_file :: "datetime \<Rightarrow> string" where
  "strftime_file t =
     dec (year t) @ pad2 (month t) @ pad2 (day t) @ ''_'' @
     pad2 (hour t) @ pad2 (minute t) @ pad2 (second t)"

definition strftime_date :: "datetime \<Rightarrow> string" where
  "strftime_date t =
     dec (year t) @ ''-'' @ pad2 (month t) @ ''-'' @ pad2 (day t) @ '' '' @
     pad2 (hour t) @ '':'' @ pad2 (minute t) @ '':'' @ pad2 (second t)"

text \<open>
  The file system maps a path to what is there. \<^verbatim>\<open>os.makedirs(p, exist_ok=True)\<close> leaves
  an existing directory alone and raises when \<open>p\<close> is a file; \<^verbatim>\<open>open(p, "w")\<close> followed by
  one \<^verbatim>\<open>write\<close> replaces the content of \<open>p\<close> and raises when \<open>p\<close> is a directory.
\<close>

datatype node = Dir | File string

type_synonym filesystem = "string \<Rightarrow> node option"

datatype os_error = FileExistsError | IsADirectoryError

definition makedirs :: "string \<Rightarrow> filesystem \<Rightarrow> os_error + filesystem" where
  "makedirs p fs =
     (case fs p of
        None \<Rightarrow> Inr (fs(p \<mapsto> Dir))
      | Some Dir \<Rightarrow> Inr fs
      | Some (File text) \<Rightarrow> Inl FileExistsError)"

definition write_file :: "string \<Rightarrow> string \<Rightarrow> filesystem \<Rightarrow> os_error + filesystem" where
  "write_file p text fs =
     (case fs p of
        Some Dir \<Rightarrow> Inl IsADirectoryError
      | _ \<Rightarrow> Inr (fs(p \<mapsto> File text)))"

text \<open>
  The lines the script prints, and how the process ends: the script ran to its last line,
  \<^verbatim>\<open>exit(n)\<close> was called, or an exception was not caught. The exit code is then 0, \<open>n\<close>
  and 1.
\<close>

datatype console_line =
  Banner | Connecting | Connection_failed string | Connected | Report_saved string

datatype ending = Completed | Sys_exit nat | Uncaught os_error

fun exit_code :: "ending \<Rightarrow> nat" where
  "exit_code Completed = 0"
| "exit_code (Sys_exit n) = n"
| "exit_code (Uncaught e) = 1"

record run =
  ending :: ending
  console :: "console_line list"
  files :: filesystem
  driver_calls :: "db_call list"

definition report_dir :: string where
  "report_dir = ''cis_html_reports''"

definition html_report :: "datetime \<Rightarrow> string" where
  "html_report t = report_dir @ ''/oracle_cis_report_'' @ strftime_file t @ ''.html''"

text \<open>
  The report generation, from \<^verbatim>\<open>os.makedirs\<close> to the last \<^verbatim>\<open>print\<close>. \<open>out\<close> holds the
  lines printed so far and \<open>log\<close> the calls made to the driver.
\<close>

definition generate_report ::
  "result list \<Rightarrow> datetime \<Rightarrow> datetime \<Rightarrow> filesystem \<Rightarrow> console_line list \<Rightarrow> db_call list \<Rightarrow> run" where
  "generate_report results t_file t_date fs out log =
     (case makedirs report_dir fs of
        Inl e \<Rightarrow> \<lparr>ending = Uncaught e, console = out, files = fs, driver_calls = log\<rparr>
      | Inr fs1 \<Rightarrow>
          (case write_file (html_report t_file) (render (strftime_date t_date) results) fs1 of
             Inl e \<Rightarrow> \<lparr>ending = Uncaught e, console = out, files = fs1, driver_calls = log\<rparr>
           | Inr fs2 \<Rightarrow>
               \<lparr>ending = Completed, console = out @ [Report_saved (html_report t_file)],
                files = fs2, driver_calls = log\<rparr>))"

text \<open>
  \<^verbatim>\<open>input("Enter Port [default: 1521]: ") or "1521"\<close>, and the DSN built from the answers.
\<close>

definition port_or_default :: "string \<Rightarrow> string" where
  "port_or_default p = (if p = [] then ''1521'' else p)"

definition dsn_of :: "'db driver \<Rightarrow> inputs \<Rightarrow> string" where
  "dsn_of drv inp = makedsn drv (host inp) (port_or_default (port inp)) (service inp)"

definition script ::
  "'db driver \<Rightarrow> check list \<Rightarrow> inputs \<Rightarrow> datetime \<Rightarrow> datetime \<Rightarrow> filesystem \<Rightarrow> run" where
  "script drv catalog inp t_file t_date fs =
     (case connect drv (user inp) (password inp) (dsn_of drv inp) of
        Inl error \<Rightarrow>
          \<lparr>ending = Sys_exit 1,
           console = [Banner, Connecting, Connection_failed error],
           files = fs,
           driver_calls = [Connect (user inp) (password inp) (dsn_of drv inp)]\<rparr>
      | Inr connection \<Rightarrow>
          (case audit drv catalog
                  \<lparr>db = connection,
                   calls = [Connect (user inp) (password inp) (dsn_of drv inp), Cursor]\<rparr> of
             (results, s) \<Rightarrow>
               generate_report results t_file t_date fs [Banner, Connecting, Connected]
                 (calls s @ [Cursor_close, Connection_close])))"

definition main :: "'db driver \<Rightarrow> inputs \<Rightarrow> datetime \<Rightarrow> datetime \<Rightarrow> filesystem \<Rightarrow> run" where
  "main drv inp t_file t_date fs = script drv cis_checks inp t_file t_date fs"

text \<open>The statements executed, read off a log of driver calls.\<close>

fun executed :: "db_call list \<Rightarrow> string list" where
  "executed [] = []"
| "executed (Execute q # cs) = q # executed cs"
| "executed (c # cs) = executed cs"


section \<open>Examples to run the model on\<close>

text \<open>
  A driver to run the model on: the database state counts the statements executed, the
  password \<open>tiger\<close> opens a session, the statement \<open>SELECT 1 FROM DUAL\<close> returns the one
  row \<open>(1,)\<close>, and every other statement raises \<open>ORA-00942\<close>.
\<close>

definition demo_driver :: "nat driver" where
  "demo_driver =
     \<lparr>makedsn = (\<lambda>host port service. host @ '':'' @ port @ ''/'' @ service),
      connect = (\<lambda>user password dsn.
         if password = ''tiger'' then Inr 0
         else Inl ''ORA-01017: invalid username/password; logon denied''),
      execute = (\<lambda>n q.
         (if q = ''SELECT 1 FROM DUAL'' then None
          else Some ''ORA-00942: table or view does not exist'', Suc n)),
      fetchall = (\<lambda>n. (Inr [PTuple [PInt 1]], n))\<rparr>"

definition demo_session :: "nat session" where
  "demo_session = \<lparr>db = 0, calls = []\<rparr>"

definition demo_check :: check where
  "demo_check =
     \<lparr>c_id = ''1.1'', c_desc = ''One'', c_query = ''SELECT 1 FROM DUAL'', c_risk = ''High'',
      c_fix_type = ''Quick'', c_remediation = ''None needed''\<rparr>"

definition failing_check :: check where
  "failing_check =
     \<lparr>c_id = ''3.1'', c_desc = ''DBA role misuse'',
      c_query = ''SELECT grantee FROM dba_role_privs'', c_risk = ''High'',
      c_fix_type = ''Involved'', c_remediation = ''Limit DBA role assignment''\<rparr>"

text \<open>Inputs to run the script on.\<close>

definition demo_inputs :: inputs where
  "demo_inputs =
     \<lparr>host = ''dbhost'', port = '''', service = ''ORCL'', user = ''scott'', password = ''tiger''\<rparr>"

definition wrong_inputs :: inputs where
  "wrong_inputs =
     \<lparr>host = ''dbhost'', port = '''', service = ''ORCL'', user = ''scott'', password = ''lion''\<rparr>"

definition demo_time :: datetime where
  "demo_time = \<lparr>year = 2024, month = 3, day = 9, hour = 14, minute = 5, second = 0\<rparr>"

definition empty_fs :: filesystem where
  "empty_fs = (\<lambda>p. None)"


text \<open>Results without markup, and a result whose output holds markup.\<close>

definition plain_results :: "result list" where
  "plain_results =
     [\<lparr>r_id = ''1.1'', r_desc = ''Ensure auditing is enabled'', r_risk = ''High'',
       r_fix_type = ''Quick'', r_remediation = ''Set audit_trail'',
       r_output = [PTuple [PStr ''DB'']]\<rparr>,
      \<lparr>r_id = ''9.9'', r_desc = ''Listener check'', r_risk = ''A>B'',
       r_fix_type = ''Planned'', r_remediation = ''Review'',
       r_output = [PTuple [PInt 3, PNone], PTuple [PInt (- 7), PStr ''x'']]\<rparr>]"

definition markup_result :: result where
  "markup_result =
     \<lparr>r_id = ''1.1'', r_desc = ''Ensure auditing is enabled'', r_risk = ''High'',
      r_fix_type = ''Quick'', r_remediation = ''Set audit_trail'',
      r_output = [PTuple [PStr ''<tr class=\"Low\">'']]\<rparr>"


definition html_result :: result where
  "html_result =
     \<lparr>r_id = ''3.1'', r_desc = ''DBA role misuse'', r_risk = ''High'',
      r_fix_type = ''Involved'', r_remediation = ''Limit DBA role assignment'',
      r_output = [PTuple [PInt 7, PStr ''it's <b>R&D</b>'']]\<rparr>"


section \<open>The audit loop: one result per check\<close>

lemma audit_loop_acc:
  "fst (audit_loop drv cs acc s) = acc @ fst (audit_loop drv cs [] s)"
proof (induction cs arbitrary: acc s)
  case Nil
  show ?case by simp
next
  case (Cons c cs)
  obtain r s' where rc: "run_check drv c s = (r, s')"
    by (cases "run_check drv c s")
  have "fst (audit_loop drv (c # cs) acc s) = (acc @ [r]) @ fst (audit_loop drv cs [] s')"
    using rc Cons.IH [of "acc @ [r]" s'] by simp
  moreover have "fst (audit_loop drv (c # cs) [] s) = [r] @ fst (audit_loop drv cs [] s')"
    using rc Cons.IH [of "[r]" s'] by simp
  ultimately show ?case by simp
qed

lemma audit_loop_snd:
  "snd (audit_loop drv cs acc s) = snd (audit_loop drv cs [] s)"
proof (induction cs arbitrary: acc s)
  case Nil
  show ?case by simp
next
  case (Cons c cs)
  obtain r s' where rc: "run_check drv c s = (r, s')"
    by (cases "run_check drv c s")
  show ?case
    using rc Cons.IH [of "acc @ [r]" s'] Cons.IH [of "[r]" s'] by simp
qed

lemma audit_Nil: "audit drv [] s = ([], s)"
  by (simp add: audit_def)

lemma audit_Cons:
  "audit drv (c # cs) s =
     (fst (run_check drv c s) # fst (audit drv cs (snd (run_check drv c s))),
      snd (audit drv cs (snd (run_check drv c s))))"
proof -
  obtain r s' where rc: "run_check drv c s = (r, s')"
    by (cases "run_check drv c s")
  have acc: "fst (audit_loop drv cs [r] s') = [r] @ fst (audit_loop drv cs [] s')"
    by (rule audit_loop_acc)
  have st: "snd (audit_loop drv cs [r] s') = snd (audit_loop drv cs [] s')"
    by (rule audit_loop_snd)
  have step: "audit drv (c # cs) s = audit_loop drv cs [r] s'"
    using rc by (simp add: audit_def)
  have proj: "fst (run_check drv c s) = r" "snd (run_check drv c s) = s'"
    using rc by simp_all
  show ?thesis
    unfolding step proj by (simp add: audit_def acc st prod_eq_iff)
qed

lemma audit_append:
  "audit drv (pre @ post) s =
     (fst (audit drv pre s) @ fst (audit drv post (snd (audit drv pre s))),
      snd (audit drv post (snd (audit drv pre s))))"
proof (induction pre arbitrary: s)
  case Nil
  show ?case by (simp add: audit_Nil)
next
  case (Cons c pre)
  show ?case
    by (simp add: audit_Cons Cons.IH)
qed

lemma run_check_fields: "result_fields (fst (run_check drv c s)) = check_fields c"
  by (simp add: run_check_def result_fields_def check_fields_def split: prod.split)

lemma audit_fields: "map result_fields (fst (audit drv catalog s)) = map check_fields catalog"
  by (induction catalog arbitrary: s) (simp_all add: audit_Nil audit_Cons run_check_fields)

lemma audit_length: "length (fst (audit drv catalog s)) = length catalog"
  by (induction catalog arbitrary: s) (simp_all add: audit_Nil audit_Cons)

text \<open>
  C1. For every catalog, every driver and every database state, the audit returns as many
  results as the catalog has checks, and the results carry, position by position, the id,
  description, risk, fix type and remediation of the checks: one result per check, in
  catalog order, whatever the queries do.
\<close>

theorem audit_one_result_per_check:
  "length (fst (audit drv catalog s)) = length catalog \<and>
   map result_fields (fst (audit drv catalog s)) = map check_fields catalog"
  by (simp add: audit_length audit_fields)


section \<open>The output of one check\<close>

lemma audit_nth:
  "fst (audit drv (pre @ c # post) s) ! length pre = fst (run_check drv c (snd (audit drv pre s)))"
  by (simp add: audit_append audit_Cons nth_append audit_length)

lemma audit_drop:
  "drop (Suc (length pre)) (fst (audit drv (pre @ c # post) s)) =
   fst (audit drv post (snd (run_check drv c (snd (audit drv pre s)))))"
  by (simp add: audit_append audit_Cons audit_length)

lemma run_check_output:
  "try_query drv (c_query c) s = (r, s') \<Longrightarrow>
   r_output (fst (run_check drv c s)) = handle_output r \<and> snd (run_check drv c s) = s'"
  by (simp add: run_check_def)

text \<open>
  C3. Let a catalog be \<open>pre @ c # post\<close>, so that the check \<open>c\<close> is run in the state the
  checks of \<open>pre\<close> leave. When \<^verbatim>\<open>execute\<close> of its query raises nothing there and
  \<^verbatim>\<open>fetchall\<close> then returns the list \<open>rows\<close>, the output of the result of \<open>c\<close> is
  \<open>rows\<close> itself: the same elements in the same order.
\<close>

theorem successful_query_output_is_rows:
  assumes "catalog = pre @ c # post"
    and "execute drv (db (snd (audit drv pre s))) (c_query c) = (None, d1)"
    and "fetchall drv d1 = (Inr rows, d2)"
  shows "r_output (fst (audit drv catalog s) ! length pre) = rows"
proof -
  let ?s = "snd (audit drv pre s)"
  have "fst (try_query drv (c_query c) ?s) = Inr rows"
    using assms(2,3) by (simp add: try_query_def cursor_execute_def cursor_fetchall_def)
  then obtain s' where "try_query drv (c_query c) ?s = (Inr rows, s')"
    by (cases "try_query drv (c_query c) ?s") simp
  then have "r_output (fst (run_check drv c ?s)) = rows"
    using run_check_output [of drv c ?s "Inr rows" s'] by (simp add: handle_output_def)
  then show ?thesis
    using assms(1) by (simp add: audit_nth)
qed

theorem successful_query_output_is_rows_witness:
  "execute demo_driver (db (snd (audit demo_driver [failing_check] demo_session)))
     (c_query demo_check) = (None, 2) \<and>
   fetchall demo_driver 2 = (Inr [PTuple [PInt 1]], 2) \<and>
   r_output (fst (audit demo_driver [failing_check, demo_check, failing_check] demo_session) ! 1)
     = [PTuple [PInt 1]]"
proof -
  have e: "execute demo_driver (db (snd (audit demo_driver [failing_check] demo_session)))
     (c_query demo_check) = (None, 2)"
    by (simp add: audit_def run_check_def try_query_def cursor_execute_def cursor_fetchall_def
        demo_driver_def demo_session_def demo_check_def failing_check_def)
  have f: "fetchall demo_driver 2 = (Inr [PTuple [PInt 1]], 2)"
    by (simp add: demo_driver_def)
  have c: "[failing_check, demo_check, failing_check] = [failing_check] @ demo_check # [failing_check]"
    by simp
  show ?thesis
    using successful_query_output_is_rows [OF c e f] e f by simp
qed

text \<open>
  C2, as the code has it. When the query of the check \<open>c\<close> raises an exception with
  message \<open>msg\<close> (in \<^verbatim>\<open>execute\<close> or in \<^verbatim>\<open>fetchall\<close>), the output of its result is a list
  of one element, and that element is a tuple of one component, the string \<open>Error: \<close>
  followed by \<open>msg\<close>. The run goes on: the audit still returns one result per check, and
  the results after that of \<open>c\<close> are those of auditing the remaining checks \<open>post\<close> from
  the state \<open>s1\<close> the failed query left.
\<close>

theorem failing_query_output_is_error_tuple:
  assumes "catalog = pre @ c # post"
    and "try_query drv (c_query c) (snd (audit drv pre s)) = (Inl msg, s1)"
  shows "r_output (fst (audit drv catalog s) ! length pre) = [PTuple [PStr (''Error: '' @ msg)]] \<and>
         length (fst (audit drv catalog s)) = length catalog \<and>
         drop (Suc (length pre)) (fst (audit drv catalog s)) = fst (audit drv post s1)"
proof -
  let ?s = "snd (audit drv pre s)"
  have rc: "r_output (fst (run_check drv c ?s)) = handle_output (Inl msg) \<and>
            snd (run_check drv c ?s) = s1"
    using assms(2) by (rule run_check_output)
  have "r_output (fst (audit drv catalog s) ! length pre) = [PTuple [PStr (''Error: '' @ msg)]]"
    using rc assms(1) by (simp add: audit_nth handle_output_def)
  moreover have "drop (Suc (length pre)) (fst (audit drv catalog s)) = fst (audit drv post s1)"
    using rc assms(1) by (simp add: audit_drop)
  ultimately show ?thesis
    by (simp add: audit_length)
qed

theorem failing_query_output_is_error_tuple_witness:
  "try_query demo_driver (c_query failing_check) (snd (audit demo_driver [demo_check] demo_session))
     = (Inl ''ORA-00942: table or view does not exist'', \<lparr>db = 2, calls = [Execute ''SELECT 1 FROM DUAL'', Fetchall, Execute ''SELECT grantee FROM dba_role_privs'']\<rparr>) \<and>
   r_output (fst (audit demo_driver [demo_check, failing_check, demo_check] demo_session) ! 1)
     = [PTuple [PStr ''Error: ORA-00942: table or view does not exist'']] \<and>
   length (fst (audit demo_driver [demo_check, failing_check, demo_check] demo_session)) = 3 \<and>
   drop 2 (fst (audit demo_driver [demo_check, failing_check, demo_check] demo_session))
     = fst (audit demo_driver [demo_check] \<lparr>db = 2, calls = [Execute ''SELECT 1 FROM DUAL'', Fetchall, Execute ''SELECT grantee FROM dba_role_privs'']\<rparr>)"
proof -
  have t: "try_query demo_driver (c_query failing_check) (snd (audit demo_driver [demo_check] demo_session))
     = (Inl ''ORA-00942: table or view does not exist'', \<lparr>db = 2, calls = [Execute ''SELECT 1 FROM DUAL'', Fetchall, Execute ''SELECT grantee FROM dba_role_privs'']\<rparr>)"
    by (simp add: audit_def run_check_def try_query_def cursor_execute_def cursor_fetchall_def
        demo_driver_def demo_session_def demo_check_def failing_check_def)
  have c: "[demo_check, failing_check, demo_check] = [demo_check] @ failing_check # [demo_check]"
    by simp
  show ?thesis
    using failing_query_output_is_error_tuple [OF c t] t by (simp add: numeral_2_eq_2)
qed

text \<open>
  C2 as the claim words it fails: the sole entry of the output is not the string. The query
  of \<open>failing_check\<close> raises \<open>ORA-00942\<close>, and the output of its result differs from the
  one-element list holding the string \<open>Error: ORA-00942: table or view does not exist\<close>.
\<close>

theorem error_output_is_not_the_bare_string:
  "fst (try_query demo_driver (c_query failing_check) demo_session)
     = Inl ''ORA-00942: table or view does not exist'' \<and>
   r_output (fst (audit demo_driver [failing_check] demo_session) ! 0)
     \<noteq> [PStr (''Error: '' @ ''ORA-00942: table or view does not exist'')]"
  by (simp add: audit_def run_check_def try_query_def cursor_execute_def cursor_fetchall_def
      handle_output_def demo_driver_def demo_session_def failing_check_def)


section \<open>Scanning a text chunk by chunk\<close>

lemma may_start_append: "may_start op (t @ ys) \<Longrightarrow> may_start op t"
proof (induction op arbitrary: t)
  case Nil
  show ?case by simp
next
  case (Cons k ks)
  then show ?case by (cases t) auto
qed

lemma prefix_may_start: "prefix op t \<Longrightarrow> may_start op t"
proof (induction op arbitrary: t)
  case Nil
  show ?case by simp
next
  case (Cons k ks)
  then show ?case by (cases t) auto
qed

lemma free_of_no_prefix: "free_of op (c # cs) \<Longrightarrow> \<not> prefix op (c # cs @ ys)"
proof
  assume f: "free_of op (c # cs)" and p: "prefix op (c # cs @ ys)"
  from p have "may_start op ((c # cs) @ ys)"
    by (simp add: prefix_may_start)
  then have "may_start op (c # cs)"
    by (rule may_start_append)
  with f show False by simp
qed

lemma free_of_append: "free_of op xs \<Longrightarrow> free_of op ys \<Longrightarrow> free_of op (xs @ ys)"
proof (induction xs)
  case Nil
  then show ?case by simp
next
  case (Cons c cs)
  have "\<not> may_start op ((c # cs) @ ys)"
    using Cons.prems(1) may_start_append [of op "c # cs" ys] by auto
  then show ?case
    using Cons by simp
qed

lemma free_of_notin: "k \<notin> set xs \<Longrightarrow> free_of (k # ks) xs"
  by (induction xs) auto

lemma texts_between_free:
  "free_of op xs \<Longrightarrow> texts_between op cl (xs @ ys) = texts_between op cl ys"
proof (induction xs)
  case Nil
  show ?case by simp
next
  case (Cons c cs)
  have "\<not> prefix op (c # cs @ ys)"
    using Cons.prems by (rule free_of_no_prefix)
  moreover have "free_of op cs"
    using Cons.prems by simp
  ultimately show ?case
    using Cons.IH by simp
qed

lemma take_until_free:
  "free_of cl xs \<Longrightarrow> take_until cl (xs @ ys) = xs @ take_until cl ys"
proof (induction xs)
  case Nil
  show ?case by simp
next
  case (Cons c cs)
  have "\<not> prefix cl (c # cs @ ys)"
    using Cons.prems by (rule free_of_no_prefix)
  moreover have "free_of cl cs"
    using Cons.prems by simp
  ultimately show ?case
    using Cons.IH by simp
qed

lemma take_until_here: "take_until (k # ks) ((k # ks) @ ys) = []"
  by simp

lemma texts_between_here:
  "texts_between (k # ks) cl ((k # ks) @ ys) =
     take_until cl ys # texts_between (k # ks) cl (ks @ ys)"
  by simp

lemma text_lines_Cons: "text_lines (l # ls) = (l @ [newline]) @ text_lines ls"
  by (simp add: text_lines_def)

lemma free_of_lines:
  "list_all (\<lambda>l. free_of op (l @ [newline])) ls \<Longrightarrow> free_of op (text_lines ls)"
proof (induction ls)
  case Nil
  show ?case by (simp add: text_lines_def)
next
  case (Cons l ls)
  have a: "free_of op (l @ [newline])"
    using Cons.prems by simp
  have b: "free_of op (text_lines ls)"
    using Cons by simp
  show ?case
    unfolding text_lines_Cons by (rule free_of_append [OF a b])
qed


section \<open>The table body of a report\<close>

lemma head_free_tbody: "free_of ''<tbody>'' template_head"
  by (simp add: template_head_def free_of_append free_of_lines template_style_lines_def
      newline_def)

lemma thead_split:
  "template_thead =
     (text_lines template_thead_lines @ ''        '') @ ''<tbody>'' @ (newline # ''        '')"
  by (simp add: template_thead_def text_lines_def)

lemma thead_lines_free_tbody: "free_of ''<tbody>'' (text_lines template_thead_lines @ ''        '')"
  by (simp add: template_thead_lines_def free_of_append free_of_lines newline_def)

lemma tail_split:
  "template_tail =
     (newline # ''        '') @ ''</tbody>'' @
     (newline # text_lines [''    </table>'', ''</body>''] @ ''</html>'')"
  by (simp add: template_tail_def text_lines_def)

lemma tail_free_tbody: "free_of ''<tbody>'' template_tail"
  by (simp add: template_tail_def text_lines_def newline_def)

lemma item_free_tbody: "markup_free item \<Longrightarrow> free_of ''<tbody>'' (render_item item)"
  by (simp add: render_item_def markup_free_def free_of_append free_of_notin newline_def)

lemma item_free_tbody_end: "markup_free item \<Longrightarrow> free_of ''</tbody>'' (render_item item)"
  by (simp add: render_item_def markup_free_def free_of_append free_of_notin newline_def)

lemma loop_free_tbody: "list_all markup_free items \<Longrightarrow> free_of ''<tbody>'' (render_loop items)"
  by (induction items) (simp_all add: free_of_append item_free_tbody)

lemma loop_free_tbody_end: "list_all markup_free items \<Longrightarrow> free_of ''</tbody>'' (render_loop items)"
  by (induction items) (simp_all add: free_of_append item_free_tbody_end)

lemma table_body_of_free_loop:
  assumes date: "CHR ''<'' \<notin> set date"
    and op: "free_of ''<tbody>'' (render_loop results)"
    and cl: "free_of ''</tbody>'' (render_loop results)"
  shows "table_body (render date results) =
           [(newline # ''        '') @ render_loop results @ (newline # ''        '')]"
proof -
  let ?indent = "newline # ''        ''"
  let ?rest = "?indent @ render_loop results @ template_tail"
  have doc: "render date results =
      template_head @ date @ (text_lines template_thead_lines @ ''        '') @ ''<tbody>'' @ ?rest"
    unfolding render_def thead_split by simp
  have indent_op: "free_of ''<tbody>'' ?indent" and indent_cl: "free_of ''</tbody>'' ?indent"
    by (simp_all add: newline_def)
  have "texts_between ''<tbody>'' ''</tbody>'' ?rest = []"
    using texts_between_free [OF indent_op, of "''</tbody>''" "render_loop results @ template_tail"]
      texts_between_free [OF op, of "''</tbody>''" template_tail]
      texts_between_free [OF tail_free_tbody, of "''</tbody>''" "[]"]
    by simp
  then have after: "texts_between ''<tbody>'' ''</tbody>'' (''tbody>'' @ ?rest) = []"
    using texts_between_free [of "''<tbody>''" "''tbody>''" "''</tbody>''" ?rest] by simp
  have "take_until ''</tbody>'' template_tail = ?indent"
    unfolding tail_split
    using take_until_free [OF indent_cl] take_until_here [of "CHR ''<''" "''/tbody>''"]
    by simp
  then have body: "take_until ''</tbody>'' ?rest = ?indent @ render_loop results @ ?indent"
    using take_until_free [OF indent_cl, of "render_loop results @ template_tail"]
      take_until_free [OF cl, of template_tail]
    by simp
  have "texts_between ''<tbody>'' ''</tbody>'' (render date results) =
        texts_between ''<tbody>'' ''</tbody>'' (''<tbody>'' @ ?rest)"
    unfolding doc
    using texts_between_free [OF head_free_tbody]
      texts_between_free [OF free_of_notin [OF date]]
      texts_between_free [OF thead_lines_free_tbody]
    by simp
  also have "\<dots> = take_until ''</tbody>'' ?rest # texts_between ''<tbody>'' ''</tbody>'' (''tbody>'' @ ?rest)"
    by (rule texts_between_here)
  finally show ?thesis
    unfolding table_body_def using after body by simp
qed

lemma table_body_render:
  assumes date: "CHR ''<'' \<notin> set date" and items: "list_all markup_free results"
  shows "table_body (render date results) =
           [(newline # ''        '') @ render_loop results @ (newline # ''        '')]"
  using date loop_free_tbody [OF items] loop_free_tbody_end [OF items]
  by (rule table_body_of_free_loop)

section \<open>The rows and the output cells of a report\<close>

lemma start_tags_free:
  "free_of (CHR ''<'' # name) xs \<Longrightarrow> start_tags name (xs @ ys) = start_tags name ys"
proof (induction xs)
  case Nil
  show ?case by simp
next
  case (Cons c cs)
  have "\<not> prefix (CHR ''<'' # name) (c # cs @ ys)"
    using Cons.prems by (rule free_of_no_prefix)
  then have "\<not> is_start_tag name (c # cs @ ys)"
    unfolding is_start_tag_def by blast
  moreover have "free_of (CHR ''<'' # name) cs"
    using Cons.prems by simp
  ultimately show ?case
    using Cons.IH by simp
qed

lemma take_tag_quoted:
  "dquote \<notin> set xs \<Longrightarrow> take_tag True (xs @ dquote # ys) = xs @ dquote # take_tag False ys"
  by (induction xs) auto

lemma item_rows:
  "markup_free item \<Longrightarrow>
   start_tags ''tr'' (render_item item @ rest) =
     ('' class=\"'' @ r_risk item @ [dquote]) # start_tags ''tr'' rest"
proof -
  assume free: "markup_free item"
  have quoted: "take_tag True (r_risk item @ dquote # ys) = r_risk item @ dquote # take_tag False ys"
    for ys
    using free by (intro take_tag_quoted) (simp add: markup_free_def)
  have quoted': "take_tag True (r_risk item @ CHR 0x22 # ys) = r_risk item @ CHR 0x22 # take_tag False ys"
    for ys
    using quoted [of ys] by (simp add: dquote_def)
  show ?thesis
    using free
    by (simp add: render_item_def markup_free_def is_start_tag_def is_space_def start_tags_free
        free_of_notin newline_def dquote_def quoted')
qed

lemma loop_rows:
  "list_all markup_free items \<Longrightarrow>
   start_tags ''tr'' (render_loop items @ rest) =
     map (\<lambda>item. '' class=\"'' @ r_risk item @ [dquote]) items @ start_tags ''tr'' rest"
  by (induction items) (simp_all add: item_rows)

lemma body_rows_render:
  assumes date: "CHR ''<'' \<notin> set date" and items: "list_all markup_free results"
  shows "body_rows (render date results) =
           map (\<lambda>item. '' class=\"'' @ r_risk item @ [dquote]) results"
proof -
  let ?indent = "newline # ''        ''"
  have indent: "free_of ''<tr'' ?indent"
    by (simp add: newline_def)
  have "start_tags ''tr'' (?indent @ render_loop results @ ?indent) =
        map (\<lambda>item. '' class=\"'' @ r_risk item @ [dquote]) results"
    using start_tags_free [of "''tr''" ?indent "render_loop results @ ?indent"] indent
      loop_rows [OF items, of ?indent]
      start_tags_free [of "''tr''" ?indent "[]"]
    by simp
  then show ?thesis
    unfolding body_rows_def table_body_render [OF date items] by simp
qed

lemma tag_class_of_risk:
  assumes "dquote \<notin> set risk" and "list_all read_verbatim risk"
  shows "tag_class ('' class=\"'' @ risk @ [dquote]) = Some risk"
proof -
  have "free_of [dquote] risk"
    using assms(1) by (rule free_of_notin)
  then have "take_until [dquote] (risk @ [dquote]) = risk"
    using take_until_free [of "[dquote]" risk "[dquote]"] by simp
  then show ?thesis
    using assms(2) by (simp add: tag_class_def)
qed

lemma head_free_pre: "free_of ''<pre>'' template_head"
  by (simp add: template_head_def free_of_append free_of_lines template_style_lines_def
      newline_def)

lemma thead_free_pre: "free_of ''<pre>'' template_thead"
  by (simp add: template_thead_def template_thead_lines_def free_of_append free_of_lines
      newline_def)

lemma tail_free_pre: "free_of ''<pre>'' template_tail"
  by (simp add: template_tail_def text_lines_def newline_def)

lemma item_cells:
  "markup_free item \<Longrightarrow>
   texts_between ''<pre>'' ''</pre>'' (render_item item @ rest) =
     item_output (r_output item) # texts_between ''<pre>'' ''</pre>'' rest"
  by (simp add: render_item_def markup_free_def texts_between_free take_until_free free_of_notin
      newline_def)

lemma loop_cells:
  "list_all markup_free items \<Longrightarrow>
   texts_between ''<pre>'' ''</pre>'' (render_loop items @ rest) =
     map (\<lambda>item. item_output (r_output item)) items @ texts_between ''<pre>'' ''</pre>'' rest"
  by (induction items) (simp_all add: item_cells)

lemma output_cells_render:
  assumes date: "CHR ''<'' \<notin> set date" and items: "list_all markup_free results"
  shows "output_cells (render date results) = map (\<lambda>item. item_output (r_output item)) results"
proof -
  have "texts_between ''<pre>'' ''</pre>'' template_tail = []"
    using texts_between_free [OF tail_free_pre, of "''</pre>''" "[]"] by simp
  then show ?thesis
    unfolding output_cells_def render_def
    using texts_between_free [OF head_free_pre]
      texts_between_free [OF free_of_notin [OF date]]
      texts_between_free [OF thead_free_pre]
      loop_cells [OF items]
    by simp
qed

section \<open>The style sheet of a report\<close>

lemma head_split:
  "template_head =
     (newline # text_lines [''<!DOCTYPE html>'', ''<html>'', ''<head>'',
        ''    <meta charset=\"UTF-8\">'', ''    <title>Oracle CIS Audit Report</title>''] @ ''    '') @
     ''<style>'' @ (newline # text_lines template_style_lines @ ''    '') @ ''</style>'' @
     (newline # text_lines [''</head>'', ''<body>'',
        ''    <h1>Oracle Database CIS Audit Report</h1>''] @ ''    <p><strong>Date:</strong> '')"
  by (simp add: template_head_def text_lines_def)

lemma style_lines_free: "free_of ''</style>'' (newline # text_lines template_style_lines @ ''    '')"
proof -
  have "free_of ''</style>'' (text_lines template_style_lines)"
    by (rule free_of_lines) (simp add: template_style_lines_def newline_def)
  then have "free_of ''</style>'' ([newline] @ text_lines template_style_lines @ ''    '')"
    by (intro free_of_append) (simp_all add: newline_def)
  then show ?thesis by simp
qed

lemma style_lines_free_open: "free_of ''<style>'' (newline # text_lines template_style_lines @ ''    '')"
proof -
  have "free_of ''<style>'' (text_lines template_style_lines)"
    by (rule free_of_lines) (simp add: template_style_lines_def newline_def)
  then have "free_of ''<style>'' ([newline] @ text_lines template_style_lines @ ''    '')"
    by (intro free_of_append) (simp_all add: newline_def)
  then show ?thesis by simp
qed

lemma thead_free_style: "free_of ''<style>'' template_thead"
  by (simp add: template_thead_def template_thead_lines_def free_of_append free_of_lines
      newline_def)

lemma tail_free_style: "free_of ''<style>'' template_tail"
  by (simp add: template_tail_def text_lines_def newline_def)

lemma item_free_style: "markup_free item \<Longrightarrow> free_of ''<style>'' (render_item item)"
  by (simp add: render_item_def markup_free_def free_of_append free_of_notin newline_def)

lemma loop_free_style: "list_all markup_free items \<Longrightarrow> free_of ''<style>'' (render_loop items)"
  by (induction items) (simp_all add: free_of_append item_free_style)

lemma style_sheets_render:
  assumes date: "CHR ''<'' \<notin> set date" and items: "list_all markup_free results"
  shows "style_sheets (render date results) =
           [newline # text_lines template_style_lines @ ''    '']"
proof -
  let ?before = "newline # text_lines [''<!DOCTYPE html>'', ''<html>'', ''<head>'',
        ''    <meta charset=\"UTF-8\">'', ''    <title>Oracle CIS Audit Report</title>''] @ ''    ''"
  let ?sheet = "newline # text_lines template_style_lines @ ''    ''"
  let ?after = "newline # text_lines [''</head>'', ''<body>'',
        ''    <h1>Oracle Database CIS Audit Report</h1>''] @ ''    <p><strong>Date:</strong> ''"
  let ?rest = "?after @ date @ template_thead @ render_loop results @ template_tail"
  have doc: "render date results = ?before @ ''<style>'' @ ?sheet @ ''</style>'' @ ?rest"
    unfolding render_def head_split by simp
  have before: "free_of ''<style>'' ?before"
    by (simp add: free_of_append free_of_lines newline_def)
  have after: "free_of ''<style>'' ?after"
    by (simp add: free_of_append free_of_lines newline_def)
  have "free_of ''<style>'' ?rest"
    by (intro free_of_append after free_of_notin date thead_free_style
        loop_free_style [OF items] tail_free_style)
  then have "texts_between ''<style>'' ''</style>'' ?rest = []"
    using texts_between_free [of "''<style>''" ?rest "''</style>''" "[]"] by simp
  moreover have "free_of ''<style>'' (''style>'' @ ?sheet @ ''</style>'')"
    by (intro free_of_append style_lines_free_open) simp_all
  ultimately have later:
    "texts_between ''<style>'' ''</style>'' (''style>'' @ ?sheet @ ''</style>'' @ ?rest) = []"
    using texts_between_free
      [of "''<style>''" "''style>'' @ ?sheet @ ''</style>''" "''</style>''" ?rest]
    by simp
  have sheet: "take_until ''</style>'' (?sheet @ ''</style>'' @ ?rest) = ?sheet"
    using take_until_free [OF style_lines_free, of "''</style>'' @ ?rest"]
      take_until_here [of "CHR ''<''" "''/style>''" ?rest]
    by simp
  have "texts_between ''<style>'' ''</style>'' (render date results) =
        texts_between ''<style>'' ''</style>'' (''<style>'' @ ?sheet @ ''</style>'' @ ?rest)"
    unfolding doc by (rule texts_between_free [OF before])
  also have "\<dots> = take_until ''</style>'' (?sheet @ ''</style>'' @ ?rest) #
      texts_between ''<style>'' ''</style>'' (''style>'' @ ?sheet @ ''</style>'' @ ?rest)"
    by (rule texts_between_here)
  finally show ?thesis
    unfolding style_sheets_def using later sheet by simp
qed

lemma sheet_class_rules:
  "concat (map class_rule_of (css_rules (newline # text_lines template_style_lines @ ''    ''))) =
     [(''High'', ''#f8d7da''), (''Medium'', ''#fff3cd''), (''Low'', ''#d4edda'')]"
  by (simp add: css_rules_def template_style_lines_def text_lines_def class_rule_of_def trim_def
      is_space_def is_name_char_def newline_def)

lemma class_rules_render:
  assumes "CHR ''<'' \<notin> set date" and "list_all markup_free results"
  shows "class_rules (render date results) =
           [(''High'', ''#f8d7da''), (''Medium'', ''#fff3cd''), (''Low'', ''#d4edda'')]"
  unfolding class_rules_def style_sheets_render [OF assms] using sheet_class_rules by simp

lemma split_names_no_space:
  "\<forall>c \<in> set s. \<not> is_space c \<Longrightarrow> split_names w s = (if w @ s = [] then [] else [w @ s])"
  by (induction s arbitrary: w) simp_all

lemma class_names_single:
  "\<forall>c \<in> set cls. \<not> is_space c \<Longrightarrow> class_names cls = (if cls = [] then [] else [cls])"
  by (simp add: class_names_def split_names_no_space)

lemma row_styles_own:
  assumes "class_rules html = [(''High'', ''#f8d7da''), (''Medium'', ''#fff3cd''), (''Low'', ''#d4edda'')]"
  shows "row_styles html ''High'' = [''#f8d7da''] \<and> row_styles html ''Medium'' = [''#fff3cd''] \<and>
         row_styles html ''Low'' = [''#d4edda'']"
  by (simp add: row_styles_def assms class_names_def is_space_def)

lemma row_styles_other:
  assumes "class_rules html = [(''High'', ''#f8d7da''), (''Medium'', ''#fff3cd''), (''Low'', ''#d4edda'')]"
    and "\<forall>c \<in> set cls. \<not> is_space c" and "cls \<notin> {''High'', ''Medium'', ''Low''}"
  shows "row_styles html cls = []"
  using assms(2,3) by (auto simp add: row_styles_def assms(1) class_names_single)


section \<open>The dates the script writes\<close>

lemma dec_digits: "set (dec n) \<subseteq> set ''0123456789''"
proof (induction n rule: dec.induct)
  case (1 n)
  have digit: "''0123456789'' ! k \<in> set ''0123456789''" if "k < 10" for k
    using that by (intro nth_mem) simp
  show ?case
  proof (cases "n < 10")
    case True
    then show ?thesis
      using digit [of n] by (subst dec.simps) simp
  next
    case False
    then have "set (dec (n div 10)) \<subseteq> set ''0123456789''"
      by (rule "1.IH")
    moreover have "''0123456789'' ! (n mod 10) \<in> set ''0123456789''"
      by (rule digit) simp
    ultimately show ?thesis
      using False by (subst dec.simps) simp
  qed
qed

lemma dec_no_markup: "CHR ''<'' \<notin> set (dec n)"
  using dec_digits [of n] by auto

lemma pad2_no_markup: "CHR ''<'' \<notin> set (pad2 n)"
  by (simp add: pad2_def dec_no_markup)

text \<open>The date that the script writes into the report holds no markup.\<close>

lemma strftime_date_no_markup: "CHR ''<'' \<notin> set (strftime_date t)"
  by (simp add: strftime_date_def dec_no_markup pad2_no_markup)


section \<open>The rows of the report\<close>

text \<open>
  C4, as the code has it. Let the date and the results hold no markup (\<open>markup_free\<close>).
  Then the table body of the rendered report has exactly one \<^verbatim>\<open>tr\<close> start tag per
  result, in the order of the results, and the class attribute of each is the risk of its
  result, verbatim. The style sheet read from the rendered report has three class rules, for
  \<open>High\<close>, \<open>Medium\<close> and \<open>Low\<close>, with three different background colours; so the rows of
  these three risks get one colour each, and the row of a result whose risk is any other
  single class name (a string without white space) gets none.
\<close>

theorem report_rows_carry_risk_classes:
  assumes "CHR ''<'' \<notin> set date" and "list_all markup_free results"
  shows "map tag_class (body_rows (render date results)) = map (\<lambda>item. Some (r_risk item)) results \<and>
         length (body_rows (render date results)) = length results \<and>
         class_rules (render date results)
           = [(''High'', ''#f8d7da''), (''Medium'', ''#fff3cd''), (''Low'', ''#d4edda'')] \<and>
         row_styles (render date results) ''High'' = [''#f8d7da''] \<and>
         row_styles (render date results) ''Medium'' = [''#fff3cd''] \<and>
         row_styles (render date results) ''Low'' = [''#d4edda''] \<and>
         (\<forall>item \<in> set results.
            (\<forall>c \<in> set (r_risk item). \<not> is_space c) \<and>
            r_risk item \<notin> {''High'', ''Medium'', ''Low''}
            \<longrightarrow> row_styles (render date results) (r_risk item) = [])"
proof -
  have rows: "body_rows (render date results) =
                map (\<lambda>item. '' class=\"'' @ r_risk item @ [dquote]) results"
    using assms by (rule body_rows_render)
  have "map (tag_class \<circ> (\<lambda>item. '' class=\"'' @ r_risk item @ [dquote])) results =
        map (\<lambda>item. Some (r_risk item)) results"
  proof (rule map_cong [OF refl])
    fix item
    assume "item \<in> set results"
    then have "dquote \<notin> set (r_risk item)" and "list_all read_verbatim (r_risk item)"
      using assms(2) by (simp_all add: list_all_iff markup_free_def)
    then show "(tag_class \<circ> (\<lambda>item. '' class=\"'' @ r_risk item @ [dquote])) item = Some (r_risk item)"
      unfolding comp_def by (rule tag_class_of_risk)
  qed
  then have "map tag_class (body_rows (render date results)) =
             map (\<lambda>item. Some (r_risk item)) results"
    unfolding rows map_map .
  moreover have "length (body_rows (render date results)) = length results"
    unfolding rows by simp
  moreover have sheet: "class_rules (render date results)
      = [(''High'', ''#f8d7da''), (''Medium'', ''#fff3cd''), (''Low'', ''#d4edda'')]"
    using assms by (rule class_rules_render)
  ultimately show ?thesis
    using row_styles_own [OF sheet] row_styles_other [OF sheet] by blast
qed

theorem report_rows_carry_risk_classes_witness:
  "CHR ''<'' \<notin> set ''2024-03-09 14:05:00'' \<and>
   list_all markup_free plain_results \<and>
   map tag_class (body_rows (render ''2024-03-09 14:05:00'' plain_results))
     = [Some ''High'', Some ''A>B''] \<and>
   length (body_rows (render ''2024-03-09 14:05:00'' plain_results)) = 2 \<and>
   row_styles (render ''2024-03-09 14:05:00'' plain_results) ''High'' = [''#f8d7da''] \<and>
   r_risk (plain_results ! 1) = ''A>B'' \<and>
   list_all (\<lambda>c. \<not> is_space c) ''A>B'' \<and> ''A>B'' \<notin> {''High'', ''Medium'', ''Low''} \<and>
   row_styles (render ''2024-03-09 14:05:00'' plain_results) ''A>B'' = []"
proof -
  have d: "CHR ''<'' \<notin> set ''2024-03-09 14:05:00''"
    by simp
  have m: "list_all markup_free plain_results"
    by (simp add: plain_results_def markup_free_def item_output_def int_repr_def dec.simps
        str_repr_def repr_quote_def repr_char_def isprintable_def squote_def dquote_def
        backslash_def newline_def read_verbatim_def Let_def)
  have s: "(\<forall>c \<in> set ''A>B''. \<not> is_space c) \<and> ''A>B'' \<notin> {''High'', ''Medium'', ''Low''}"
    by (simp add: is_space_def)
  show ?thesis
    using report_rows_carry_risk_classes [OF d m] d m s
    by (simp add: plain_results_def)
qed

text \<open>
  C4 as the claim words it, for every sequence of results, fails. The one result
  \<open>markup_result\<close> has the risk \<open>High\<close> and the output row \<open>('<tr class="Low">',)\<close>; the table
  body of its report has two \<^verbatim>\<open>tr\<close> start tags, and the class of the second is not the
  risk of any result.
\<close>

theorem markup_in_output_adds_a_row:
  "length [markup_result] = 1 \<and>
   map tag_class (body_rows (render ''2024-03-09 14:05:00'' [markup_result]))
     = [Some ''High'', Some ''Low'']"
proof -
  have item: "render_item markup_result =
     newline # ''            <tr class=\"High\">'' @ newline #
     ''                <td>1.1</td>'' @ newline #
     ''                <td>Ensure auditing is enabled</td>'' @ newline #
     ''                <td>High</td>'' @ newline #
     ''                <td>Quick</td>'' @ newline #
     ''                <td>Set audit_trail</td>'' @ newline #
     ''                <td><pre>('<tr class=\"Low\">',)</pre></td>'' @ newline #
     ''            </tr>'' @ newline #
     ''        ''"
    by (simp add: render_item_def markup_result_def item_output_def str_repr_def repr_quote_def
        repr_char_def isprintable_def squote_def dquote_def backslash_def Let_def)
  have op: "free_of ''<tbody>'' (render_loop [markup_result])"
    unfolding render_loop.simps item by (simp add: newline_def)
  have cl: "free_of ''</tbody>'' (render_loop [markup_result])"
    unfolding render_loop.simps item by (simp add: newline_def)
  have body: "table_body (render ''2024-03-09 14:05:00'' [markup_result]) =
      [(newline # ''        '') @ render_loop [markup_result] @ (newline # ''        '')]"
    by (rule table_body_of_free_loop [OF _ op cl]) simp
  have "body_rows (render ''2024-03-09 14:05:00'' [markup_result]) =
      ['' class=\"High\"'', '' class=\"Low\"'']"
    unfolding body_rows_def body render_loop.simps item
    by (simp add: is_start_tag_def is_space_def newline_def dquote_def)
  then show ?thesis
    by (simp add: tag_class_def read_verbatim_def dquote_def)
qed

section \<open>The report of a single check\<close>

lemma py_str_row_one: "py_str (PTuple [PInt 1]) = ''(1,)''"
  by (simp add: int_repr_def dec.simps)

lemma audit_single: "fst (audit drv [c] s) = [fst (run_check drv c s)]"
  by (simp add: audit_Cons audit_Nil)

lemma run_check_rows:
  assumes "execute drv (db s) (c_query c) = (None, d1)" and "fetchall drv d1 = (Inr rows, d2)"
  shows "fst (run_check drv c s) =
           \<lparr>r_id = c_id c, r_desc = c_desc c, r_risk = c_risk c, r_fix_type = c_fix_type c,
            r_remediation = c_remediation c, r_output = rows\<rparr>"
  using assms
  by (simp add: run_check_def try_query_def cursor_execute_def cursor_fetchall_def
      handle_output_def)

text \<open>
  C5, as the code has it. Take a catalog of the one check with id \<open>1.1\<close>, risk \<open>High\<close> and
  query \<open>SELECT 1 FROM DUAL\<close> (its other fields and the date without \<open><\<close>), whose execution
  returns the single row \<open>(1,)\<close>. The table body of the rendered report has exactly one row,
  its class is \<open>High\<close>, and the report has one output cell, whose text is \<open>(1,)\<close>: the row
  as Python writes a tuple, not the bare \<open>1\<close>.
\<close>

theorem single_check_report:
  assumes "c_id c = ''1.1''" and "c_risk c = ''High''" and "c_query c = ''SELECT 1 FROM DUAL''"
    and "execute drv (db s) (c_query c) = (None, d1)"
    and "fetchall drv d1 = (Inr [PTuple [PInt 1]], d2)"
    and "CHR ''<'' \<notin> set date" and "CHR ''<'' \<notin> set (c_desc c)"
    and "CHR ''<'' \<notin> set (c_fix_type c)" and "CHR ''<'' \<notin> set (c_remediation c)"
  shows "map tag_class (body_rows (render date (fst (audit drv [c] s)))) = [Some ''High''] \<and>
         output_cells (render date (fst (audit drv [c] s))) = [''(1,)'']"
proof -
  let ?item = "\<lparr>r_id = c_id c, r_desc = c_desc c, r_risk = c_risk c, r_fix_type = c_fix_type c,
            r_remediation = c_remediation c, r_output = [PTuple [PInt 1]]\<rparr>"
  have results: "fst (audit drv [c] s) = [?item]"
    using run_check_rows [OF assms(4,5)] by (simp add: audit_single)
  have cell: "item_output [PTuple [PInt 1]] = ''(1,)''"
    using py_str_row_one by (simp add: item_output_def)
  have free: "list_all markup_free [?item]"
    using assms(1,2,7,8,9) cell by (simp add: markup_free_def dquote_def read_verbatim_def)
  have "body_rows (render date [?item]) = ['' class=\"'' @ ''High'' @ [dquote]]"
    using body_rows_render [OF assms(6) free] assms(2) by simp
  moreover have "tag_class ('' class=\"'' @ ''High'' @ [dquote]) = Some ''High''"
    by (rule tag_class_of_risk) (simp_all add: dquote_def read_verbatim_def)
  moreover have "output_cells (render date [?item]) = [''(1,)'']"
    using output_cells_render [OF assms(6) free] cell by simp
  ultimately show ?thesis
    unfolding results by simp
qed

theorem single_check_report_witness:
  "c_id demo_check = ''1.1'' \<and> c_risk demo_check = ''High'' \<and>
   c_query demo_check = ''SELECT 1 FROM DUAL'' \<and>
   execute demo_driver (db demo_session) (c_query demo_check) = (None, 1) \<and>
   fetchall demo_driver 1 = (Inr [PTuple [PInt 1]], 1) \<and>
   CHR ''<'' \<notin> set ''2024-03-09 14:05:00'' \<and> CHR ''<'' \<notin> set (c_desc demo_check) \<and>
   CHR ''<'' \<notin> set (c_fix_type demo_check) \<and> CHR ''<'' \<notin> set (c_remediation demo_check) \<and>
   map tag_class (body_rows (render ''2024-03-09 14:05:00''
     (fst (audit demo_driver [demo_check] demo_session)))) = [Some ''High''] \<and>
   output_cells (render ''2024-03-09 14:05:00''
     (fst (audit demo_driver [demo_check] demo_session))) = [''(1,)'']"
proof -
  have a: "c_id demo_check = ''1.1''" "c_risk demo_check = ''High''"
      "c_query demo_check = ''SELECT 1 FROM DUAL''"
    by (simp_all add: demo_check_def)
  have e: "execute demo_driver (db demo_session) (c_query demo_check) = (None, 1)"
    by (simp add: demo_driver_def demo_session_def demo_check_def)
  have f: "fetchall demo_driver 1 = (Inr [PTuple [PInt 1]], 1)"
    by (simp add: demo_driver_def)
  have d: "CHR ''<'' \<notin> set ''2024-03-09 14:05:00''" "CHR ''<'' \<notin> set (c_desc demo_check)"
      "CHR ''<'' \<notin> set (c_fix_type demo_check)" "CHR ''<'' \<notin> set (c_remediation demo_check)"
    by (simp_all add: demo_check_def)
  show ?thesis
    using single_check_report [OF a e f d] a e f d by simp
qed

text \<open>
  C5 as the claim words it fails in its last part: for that catalog and that row, the text
  of the output cell is not \<open>1\<close>.
\<close>

theorem single_check_cell_is_not_bare_one:
  "fetchall demo_driver 1 = (Inr [PTuple [PInt 1]], 1) \<and>
   output_cells (render ''2024-03-09 14:05:00''
     (fst (audit demo_driver [demo_check] demo_session))) \<noteq> [''1'']"
proof -
  have results: "fst (audit demo_driver [demo_check] demo_session) =
      [\<lparr>r_id = ''1.1'', r_desc = ''One'', r_risk = ''High'', r_fix_type = ''Quick'',
        r_remediation = ''None needed'', r_output = [PTuple [PInt 1]]\<rparr>]"
    by (simp add: audit_single run_check_def try_query_def cursor_execute_def
        cursor_fetchall_def handle_output_def demo_driver_def demo_session_def demo_check_def)
  have cell: "item_output [PTuple [PInt 1]] = ''(1,)''"
    using py_str_row_one by (simp add: item_output_def)
  have free: "list_all markup_free
      [\<lparr>r_id = ''1.1'', r_desc = ''One'', r_risk = ''High'', r_fix_type = ''Quick'',
        r_remediation = ''None needed'', r_output = [PTuple [PInt 1]]\<rparr>]"
    using cell by (simp add: markup_free_def dquote_def read_verbatim_def)
  have "output_cells (render ''2024-03-09 14:05:00''
      (fst (audit demo_driver [demo_check] demo_session))) = [''(1,)'']"
    unfolding results using output_cells_render [OF _ free, of "''2024-03-09 14:05:00''"] cell
    by simp
  then show ?thesis
    by (simp add: demo_driver_def)
qed


section \<open>What the report holds of the output\<close>

lemma sublist_inside: "sublist xs ys \<Longrightarrow> sublist xs (ps @ ys @ ss)"
proof -
  assume "sublist xs ys"
  then obtain p s where "ys = p @ xs @ s"
    by (auto simp add: sublist_def)
  then have "ps @ ys @ ss = (ps @ p) @ xs @ (s @ ss)"
    by simp
  then show ?thesis
    unfolding sublist_def by blast
qed

lemma sublist_chain: "sublist xs ys \<Longrightarrow> sublist ys zs \<Longrightarrow> sublist xs zs"
proof -
  assume "sublist xs ys" and "sublist ys zs"
  then obtain p s where "zs = p @ ys @ s" and "sublist xs ys"
    by (auto simp add: sublist_def)
  then show ?thesis
    using sublist_inside [of xs ys p s] by simp
qed

lemma str_join_sublist: "x \<in> set xs \<Longrightarrow> sublist x (str_join sep xs)"
proof (induction sep xs rule: str_join.induct)
  case (1 sep)
  then show ?case by simp
next
  case (2 sep y)
  then show ?case by simp
next
  case (3 sep y z zs)
  show ?case
  proof (cases "x = y")
    case True
    then show ?thesis by simp
  next
    case False
    then have "sublist x (str_join sep (z # zs))"
      using 3 by simp
    then have "sublist x ((y @ sep) @ str_join sep (z # zs) @ [])"
      by (rule sublist_inside)
    then show ?thesis by simp
  qed
qed

lemma item_output_sublist: "v \<in> set out \<Longrightarrow> sublist (py_str v) (item_output out)"
  unfolding item_output_def by (rule str_join_sublist) simp

lemma tuple_repr_sublist: "v \<in> set vs \<Longrightarrow> sublist (py_repr v) (py_str (PTuple vs))"
proof -
  assume "v \<in> set vs"
  then have "sublist (py_repr v) (str_join '', '' (map py_repr vs))"
    by (intro str_join_sublist) simp
  then have "sublist (py_repr v)
      (''('' @ str_join '', '' (map py_repr vs) @ (if length vs = 1 then '',)'' else '')''))"
    by (rule sublist_inside)
  then show ?thesis by simp
qed

lemma render_item_cell:
  "render_item item =
     (newline # ''            <tr class=\"'' @ r_risk item @ ''\">'' @ newline #
      ''                <td>'' @ r_id item @ ''</td>'' @ newline #
      ''                <td>'' @ r_desc item @ ''</td>'' @ newline #
      ''                <td>'' @ r_risk item @ ''</td>'' @ newline #
      ''                <td>'' @ r_fix_type item @ ''</td>'' @ newline #
      ''                <td>'' @ r_remediation item @ ''</td>'' @ newline #
      ''                <td>'') @
     (''<pre>'' @ item_output (r_output item) @ ''</pre>'') @
     (''</td>'' @ newline # ''            </tr>'' @ newline # ''        '')"
  by (simp add: render_item_def)

lemma cell_in_item:
  "sublist (''<pre>'' @ item_output (r_output item) @ ''</pre>'') (render_item item)"
  unfolding sublist_def using render_item_cell by blast

lemma item_in_loop: "item \<in> set items \<Longrightarrow> sublist (render_item item) (render_loop items)"
proof (induction items)
  case Nil
  then show ?case by simp
next
  case (Cons i items)
  show ?case
  proof (cases "item = i")
    case True
    then show ?thesis by simp
  next
    case False
    then have "sublist (render_item item) (render_loop items)"
      using Cons by simp
    then have "sublist (render_item item) (render_item i @ render_loop items @ [])"
      by (rule sublist_inside)
    then show ?thesis by simp
  qed
qed

lemma loop_in_render: "sublist (render_loop results) (render date results)"
proof -
  have "render date results =
      (template_head @ date @ template_thead) @ render_loop results @ template_tail"
    by (simp add: render_def)
  then show ?thesis
    unfolding sublist_def by blast
qed

lemma cell_in_render:
  assumes "item \<in> set results"
  shows "sublist (''<pre>'' @ item_output (r_output item) @ ''</pre>'') (render date results)"
  using cell_in_item item_in_loop [OF assms] loop_in_render
  by (blast intro: sublist_chain)

lemma output_value_in_render:
  assumes "item \<in> set results" and "v \<in> set (r_output item)"
  shows "sublist (py_str v) (render date results)"
proof -
  have "sublist (py_str v) (item_output (r_output item))"
    using assms(2) by (rule item_output_sublist)
  then have "sublist (py_str v) (''<pre>'' @ item_output (r_output item) @ ''</pre>'')"
    by (rule sublist_inside)
  then show ?thesis
    using cell_in_render [OF assms(1)] by (rule sublist_chain)
qed

lemma repr_char_plain:
  assumes "isprintable c" and "c \<noteq> squote" and "c \<noteq> backslash"
  shows "repr_char squote c = [c]"
proof -
  have "c \<noteq> CHR 0x09" "c \<noteq> CHR 0x0A" "c \<noteq> CHR 0x0D"
    using assms(1) by (auto simp add: isprintable_def)
  then show ?thesis
    using assms by (simp add: repr_char_def)
qed

lemma str_repr_plain:
  assumes "\<forall>c \<in> set s. isprintable c \<and> c \<noteq> squote \<and> c \<noteq> backslash"
  shows "str_repr s = squote # s @ [squote]"
proof -
  have "squote \<notin> set s"
    using assms by auto
  then have q: "repr_quote s = squote"
    by (simp add: repr_quote_def)
  have "concat (map (repr_char squote) s) = s"
    using assms by (induction s) (simp_all add: repr_char_plain)
  then show ?thesis
    by (simp add: str_repr_def q)
qed

lemma repr_char_copy:
  assumes "isprintable c" and "c \<noteq> q" and "c \<noteq> backslash"
  shows "repr_char q c = [c]"
proof -
  have "c \<noteq> CHR 0x09" "c \<noteq> CHR 0x0A" "c \<noteq> CHR 0x0D"
    using assms(1) by (auto simp add: isprintable_def)
  then show ?thesis
    using assms by (simp add: repr_char_def)
qed

lemma special_printable: "html_special c \<Longrightarrow> isprintable c \<and> c \<noteq> backslash \<and> c \<noteq> squote"
  unfolding html_special_def isprintable_def backslash_def squote_def dquote_def
  by (elim disjE) simp_all

lemma special_not_quote:
  assumes "c \<in> set s" and "html_special c"
  shows "c \<noteq> repr_quote s"
proof (cases "squote \<in> set s \<and> dquote \<notin> set s")
  case True
  then have "repr_quote s = dquote"
    by (simp add: repr_quote_def)
  moreover have "c \<noteq> dquote"
    using True assms(1) by blast
  ultimately show ?thesis by simp
next
  case False
  then have "repr_quote s = squote"
    by (auto simp add: repr_quote_def)
  then show ?thesis
    using special_printable [OF assms(2)] by simp
qed

lemma repr_char_special:
  assumes "c \<in> set s" and "html_special c"
  shows "repr_char (repr_quote s) c = [c]"
  using special_printable [OF assms(2)] special_not_quote [OF assms]
  by (intro repr_char_copy) simp_all

lemma repr_run_special:
  assumes "set t \<subseteq> set s" and "list_all html_special t"
  shows "concat (map (repr_char (repr_quote s)) t) = t"
  using assms
proof (induction t)
  case Nil
  show ?case by simp
next
  case (Cons c t)
  have "repr_char (repr_quote s) c = [c]"
    using Cons.prems by (intro repr_char_special) simp_all
  then show ?case
    using Cons by simp
qed

lemma str_repr_run:
  assumes "s = a @ t @ b" and "list_all html_special t"
  shows "str_repr s =
           (repr_quote s # concat (map (repr_char (repr_quote s)) a)) @ t @
           (concat (map (repr_char (repr_quote s)) b) @ [repr_quote s])"
proof -
  have "set t \<subseteq> set s"
    unfolding assms(1) by auto
  then have run: "concat (map (repr_char (repr_quote s)) t) = t"
    using assms(2) by (rule repr_run_special)
  have "str_repr s =
      repr_quote s # concat (map (repr_char (repr_quote s)) s) @ [repr_quote s]"
    by (simp add: str_repr_def Let_def)
  also have "concat (map (repr_char (repr_quote s)) s) =
      concat (map (repr_char (repr_quote s)) a) @ concat (map (repr_char (repr_quote s)) t) @
      concat (map (repr_char (repr_quote s)) b)"
    by (subst assms(1)) simp
  finally show ?thesis
    unfolding run by simp
qed

text \<open>
  C9. Let a string \<open>s\<close>, any string, be a component of a row of the output of one of the
  results. The rendered document holds the \<^verbatim>\<open>repr\<close> of \<open>s\<close> that Python writes, and in it
  every run \<open>t\<close> of the characters \<open><\<close>, \<open>>\<close>, \<open>&\<close> and double quote of \<open>s\<close> stands as itself
  at its place, between the \<^verbatim>\<open>repr\<close> of what precedes it in \<open>s\<close> and of what follows it:
  none of these characters is replaced by a character entity, nor escaped in any other way.
\<close>

theorem output_strings_are_not_escaped:
  assumes "item \<in> set results" and "PTuple vs \<in> set (r_output item)" and "PStr s \<in> set vs"
  shows "sublist (str_repr s) (render date results) \<and>
         (\<forall>a t b. s = a @ t @ b \<and> list_all html_special t \<longrightarrow>
            str_repr s =
              (repr_quote s # concat (map (repr_char (repr_quote s)) a)) @ t @
              (concat (map (repr_char (repr_quote s)) b) @ [repr_quote s]))"
proof -
  have "sublist (py_repr (PStr s)) (py_str (PTuple vs))"
    using assms(3) by (rule tuple_repr_sublist)
  then have "sublist (str_repr s) (py_str (PTuple vs))"
    by simp
  then have doc: "sublist (str_repr s) (render date results)"
    using output_value_in_render [OF assms(1,2)] by (rule sublist_chain)
  have runs: "\<forall>a t b. s = a @ t @ b \<and> list_all html_special t \<longrightarrow>
      str_repr s =
        (repr_quote s # concat (map (repr_char (repr_quote s)) a)) @ t @
        (concat (map (repr_char (repr_quote s)) b) @ [repr_quote s])"
  proof (intro allI impI)
    fix a t b
    assume h: "s = a @ t @ b \<and> list_all html_special t"
    have h1: "s = a @ t @ b" and h2: "list_all html_special t"
      using h by (rule conjunct1, rule conjunct2)
    show "str_repr s =
        (repr_quote s # concat (map (repr_char (repr_quote s)) a)) @ t @
        (concat (map (repr_char (repr_quote s)) b) @ [repr_quote s])"
      using h1 h2 by (rule str_repr_run)
  qed
  show ?thesis
    using doc runs by (rule conjI)
qed

theorem output_strings_are_not_escaped_witness:
  "html_result \<in> set [html_result] \<and>
   PTuple [PInt 7, PStr ''it's <b>R&D</b>''] \<in> set (r_output html_result) \<and>
   PStr ''it's <b>R&D</b>'' \<in> set [PInt 7, PStr ''it's <b>R&D</b>''] \<and>
   ''it's <b>R&D</b>'' = ''it's <b>R'' @ ''&'' @ ''D</b>'' \<and> list_all html_special ''&'' \<and>
   str_repr ''it's <b>R&D</b>'' = ''\"it's <b>R'' @ ''&'' @ ''D</b>\"'' \<and>
   sublist (str_repr ''it's <b>R&D</b>'') (render ''2024-03-09 14:05:00'' [html_result])"
proof -
  have a: "html_result \<in> set [html_result]"
    by simp
  have b: "PTuple [PInt 7, PStr ''it's <b>R&D</b>''] \<in> set (r_output html_result)"
    by (simp add: html_result_def)
  have c: "PStr ''it's <b>R&D</b>'' \<in> set [PInt 7, PStr ''it's <b>R&D</b>'']"
    by simp
  have d1: "''it's <b>R&D</b>'' = ''it's <b>R'' @ ''&'' @ ''D</b>''"
    by simp
  have d2: "list_all html_special ''&''"
    by (simp add: html_special_def)
  have q: "repr_quote ''it's <b>R&D</b>'' = dquote"
    by (simp add: repr_quote_def squote_def dquote_def)
  have before: "repr_quote ''it's <b>R&D</b>'' #
      concat (map (repr_char (repr_quote ''it's <b>R&D</b>'')) ''it's <b>R'') = ''\"it's <b>R''"
    unfolding q
    by (simp add: repr_char_def isprintable_def squote_def dquote_def backslash_def)
  have after: "concat (map (repr_char (repr_quote ''it's <b>R&D</b>'')) ''D</b>'') @
      [repr_quote ''it's <b>R&D</b>''] = ''D</b>\"''"
    unfolding q
    by (simp add: repr_char_def isprintable_def squote_def dquote_def backslash_def)
  note all = output_strings_are_not_escaped [OF a b c, of "''2024-03-09 14:05:00''"]
  have doc: "sublist (str_repr ''it's <b>R&D</b>'') (render ''2024-03-09 14:05:00'' [html_result])"
    using all by (rule conjunct1)
  have run: "str_repr ''it's <b>R&D</b>'' =
      (repr_quote ''it's <b>R&D</b>'' #
         concat (map (repr_char (repr_quote ''it's <b>R&D</b>'')) ''it's <b>R'')) @ ''&'' @
      (concat (map (repr_char (repr_quote ''it's <b>R&D</b>'')) ''D</b>'') @
         [repr_quote ''it's <b>R&D</b>''])"
    by (rule conjunct2 [OF all, rule_format, OF conjI [OF d1 d2]])
  have repr: "str_repr ''it's <b>R&D</b>'' = ''\"it's <b>R'' @ ''&'' @ ''D</b>\"''"
    using run unfolding before after .
  show ?thesis
    by (intro conjI a b c d1 d2 repr doc)
qed


section \<open>The shape of the output entries\<close>

lemma try_query_tuples:
  assumes "\<And>d rows d'. fetchall drv d = (Inr rows, d') \<Longrightarrow> list_all is_tuple rows"
  shows "list_all is_tuple (handle_output (fst (try_query drv q s)))"
proof (cases "fst (try_query drv q s)")
  case (Inl e)
  then show ?thesis by (simp add: handle_output_def)
next
  case (Inr rows)
  obtain e s1 where ex: "cursor_execute drv q s = (e, s1)"
    by (cases "cursor_execute drv q s")
  have "e = None"
    using Inr ex by (cases e) (simp_all add: try_query_def)
  then have "fst (cursor_fetchall drv s1) = Inr rows"
    using Inr ex by (simp add: try_query_def)
  then obtain d' where "fetchall drv (db s1) = (Inr rows, d')"
    by (cases "fetchall drv (db s1)") (simp add: cursor_fetchall_def)
  then have "list_all is_tuple rows"
    by (rule assms)
  then show ?thesis
    using Inr by (simp add: handle_output_def)
qed

lemma run_check_tuples:
  assumes "\<And>d rows d'. fetchall drv d = (Inr rows, d') \<Longrightarrow> list_all is_tuple rows"
  shows "list_all is_tuple (r_output (fst (run_check drv c s)))"
proof -
  obtain r s' where t: "try_query drv (c_query c) s = (r, s')"
    by (cases "try_query drv (c_query c) s")
  have "list_all is_tuple (handle_output (fst (try_query drv (c_query c) s)))"
    using assms by (rule try_query_tuples)
  then show ?thesis
    using t run_check_output [OF t] by simp
qed

lemma audit_tuples:
  assumes "\<And>d rows d'. fetchall drv d = (Inr rows, d') \<Longrightarrow> list_all is_tuple rows"
  shows "list_all (\<lambda>item. list_all is_tuple (r_output item)) (fst (audit drv catalog s))"
proof (induction catalog arbitrary: s)
  case Nil
  show ?case by (simp add: audit_Nil)
next
  case (Cons c catalog)
  have "list_all is_tuple (r_output (fst (run_check drv c s)))"
    using assms by (rule run_check_tuples)
  then show ?case
    using Cons.IH by (simp add: audit_Cons)
qed

lemma error_entry_text:
  "item_output [PTuple [PStr (''Error: '' @ msg)]] = ''('' @ str_repr (''Error: '' @ msg) @ '',)''"
  by (simp add: item_output_def)

text \<open>
  C10. When every list that \<^verbatim>\<open>fetchall\<close> returns holds tuples only (the rows of the
  driver), every entry of the output of every result of the audit is a tuple. In particular
  the entry of a failed check is the tuple of one string, so the text of its output cell is
  Python's text of that tuple: an opening parenthesis, the \<^verbatim>\<open>repr\<close> of the string
  \<open>Error: \<close> followed by the message, a comma and a closing parenthesis; and the rendered
  report holds that text in a \<^verbatim>\<open>pre\<close> element.
\<close>

theorem output_entries_are_tuples:
  assumes "\<And>d rows d'. fetchall drv d = (Inr rows, d') \<Longrightarrow> list_all is_tuple rows"
  shows "list_all (\<lambda>item. list_all is_tuple (r_output item)) (fst (audit drv catalog s)) \<and>
         (\<forall>pre c post msg s1.
            catalog = pre @ c # post \<and>
            try_query drv (c_query c) (snd (audit drv pre s)) = (Inl msg, s1) \<longrightarrow>
              r_output (fst (audit drv catalog s) ! length pre) = [PTuple [PStr (''Error: '' @ msg)]] \<and>
              item_output (r_output (fst (audit drv catalog s) ! length pre))
                = ''('' @ str_repr (''Error: '' @ msg) @ '',)'' \<and>
              sublist (''<pre>'' @ ''('' @ str_repr (''Error: '' @ msg) @ '',)'' @ ''</pre>'')
                (render date (fst (audit drv catalog s))))"
proof -
  have "r_output (fst (audit drv catalog s) ! length pre) = [PTuple [PStr (''Error: '' @ msg)]] \<and>
        item_output (r_output (fst (audit drv catalog s) ! length pre))
          = ''('' @ str_repr (''Error: '' @ msg) @ '',)'' \<and>
        sublist (''<pre>'' @ ''('' @ str_repr (''Error: '' @ msg) @ '',)'' @ ''</pre>'')
          (render date (fst (audit drv catalog s)))"
    if cat: "catalog = pre @ c # post"
      and err: "try_query drv (c_query c) (snd (audit drv pre s)) = (Inl msg, s1)"
    for pre c post msg s1
  proof -
    let ?item = "fst (audit drv catalog s) ! length pre"
    have out: "r_output ?item = [PTuple [PStr (''Error: '' @ msg)]]"
      using run_check_output [OF err] cat by (simp add: audit_nth handle_output_def)
    have cell: "item_output (r_output ?item) = ''('' @ str_repr (''Error: '' @ msg) @ '',)''"
      unfolding out by (rule error_entry_text)
    have "length pre < length (fst (audit drv catalog s))"
      using cat by (simp add: audit_length)
    then have "?item \<in> set (fst (audit drv catalog s))"
      by (rule nth_mem)
    then have "sublist (''<pre>'' @ item_output (r_output ?item) @ ''</pre>'')
        (render date (fst (audit drv catalog s)))"
      by (rule cell_in_render)
    then show ?thesis
      using out cell by simp
  qed
  moreover have "list_all (\<lambda>item. list_all is_tuple (r_output item)) (fst (audit drv catalog s))"
    using assms by (rule audit_tuples)
  ultimately show ?thesis
    by blast
qed

theorem output_entries_are_tuples_witness:
  "list_all (\<lambda>item. list_all is_tuple (r_output item))
     (fst (audit demo_driver [demo_check, failing_check] demo_session)) \<and>
   try_query demo_driver (c_query failing_check)
       (snd (audit demo_driver [demo_check] demo_session))
     = (Inl ''ORA-00942: table or view does not exist'',
        \<lparr>db = 2, calls = [Execute ''SELECT 1 FROM DUAL'', Fetchall,
                           Execute ''SELECT grantee FROM dba_role_privs'']\<rparr>) \<and>
   r_output (fst (audit demo_driver [demo_check, failing_check] demo_session) ! 1)
     = [PTuple [PStr ''Error: ORA-00942: table or view does not exist'']] \<and>
   item_output (r_output (fst (audit demo_driver [demo_check, failing_check] demo_session) ! 1))
     = ''('Error: ORA-00942: table or view does not exist',)'' \<and>
   sublist ''<pre>('Error: ORA-00942: table or view does not exist',)</pre>''
     (render ''2024-03-09 14:05:00''
        (fst (audit demo_driver [demo_check, failing_check] demo_session)))"
proof -
  have rows: "\<And>d rows d'. fetchall demo_driver d = (Inr rows, d') \<Longrightarrow> list_all is_tuple rows"
    by (auto simp add: demo_driver_def)
  have cat: "[demo_check, failing_check] = [demo_check] @ failing_check # []"
    by simp
  have err: "try_query demo_driver (c_query failing_check)
       (snd (audit demo_driver [demo_check] demo_session))
     = (Inl ''ORA-00942: table or view does not exist'',
        \<lparr>db = 2, calls = [Execute ''SELECT 1 FROM DUAL'', Fetchall,
                           Execute ''SELECT grantee FROM dba_role_privs'']\<rparr>)"
    by (simp add: audit_def run_check_def try_query_def cursor_execute_def cursor_fetchall_def
        demo_driver_def demo_session_def demo_check_def failing_check_def)
  have repr: "str_repr (''Error: '' @ ''ORA-00942: table or view does not exist'')
      = squote # ''Error: ORA-00942: table or view does not exist'' @ [squote]"
    using str_repr_plain [of "''Error: '' @ ''ORA-00942: table or view does not exist''"]
    by (simp add: isprintable_def squote_def backslash_def)
  have all: "list_all (\<lambda>item. list_all is_tuple (r_output item))
       (fst (audit demo_driver [demo_check, failing_check] demo_session)) \<and>
     (\<forall>pre c post msg s1.
        [demo_check, failing_check] = pre @ c # post \<and>
        try_query demo_driver (c_query c) (snd (audit demo_driver pre demo_session)) = (Inl msg, s1) \<longrightarrow>
          r_output (fst (audit demo_driver [demo_check, failing_check] demo_session) ! length pre)
            = [PTuple [PStr (''Error: '' @ msg)]] \<and>
          item_output (r_output (fst (audit demo_driver [demo_check, failing_check] demo_session) ! length pre))
            = ''('' @ str_repr (''Error: '' @ msg) @ '',)'' \<and>
          sublist (''<pre>'' @ ''('' @ str_repr (''Error: '' @ msg) @ '',)'' @ ''</pre>'')
            (render ''2024-03-09 14:05:00'' (fst (audit demo_driver [demo_check, failing_check] demo_session))))"
    using rows by (rule output_entries_are_tuples)
  from all have first: "list_all (\<lambda>item. list_all is_tuple (r_output item))
     (fst (audit demo_driver [demo_check, failing_check] demo_session))"
    by blast
  from all cat err have second:
    "r_output (fst (audit demo_driver [demo_check, failing_check] demo_session) ! length [demo_check])
       = [PTuple [PStr (''Error: '' @ ''ORA-00942: table or view does not exist'')]] \<and>
     item_output (r_output (fst (audit demo_driver [demo_check, failing_check] demo_session) ! length [demo_check]))
       = ''('' @ str_repr (''Error: '' @ ''ORA-00942: table or view does not exist'') @ '',)'' \<and>
     sublist (''<pre>'' @ ''('' @ str_repr (''Error: '' @ ''ORA-00942: table or view does not exist'') @ '',)'' @ ''</pre>'')
       (render ''2024-03-09 14:05:00'' (fst (audit demo_driver [demo_check, failing_check] demo_session)))"
    by blast
  have out: "r_output (fst (audit demo_driver [demo_check, failing_check] demo_session) ! 1)
      = [PTuple [PStr ''Error: ORA-00942: table or view does not exist'']]"
    using conjunct1 [OF second] by simp
  have cell: "item_output
      (r_output (fst (audit demo_driver [demo_check, failing_check] demo_session) ! 1))
      = ''('Error: ORA-00942: table or view does not exist',)''"
    using conjunct1 [OF conjunct2 [OF second]] unfolding repr by (simp add: squote_def)
  have doc: "sublist ''<pre>('Error: ORA-00942: table or view does not exist',)</pre>''
      (render ''2024-03-09 14:05:00''
        (fst (audit demo_driver [demo_check, failing_check] demo_session)))"
    using conjunct2 [OF conjunct2 [OF second]] unfolding repr by (simp add: squote_def)
  show ?thesis
    using first err out cell doc by (intro conjI)
qed


section \<open>The run of the script\<close>

lemma generate_report_calls:
  "driver_calls (generate_report results t_file t_date fs out log) = log"
  by (simp add: generate_report_def split: sum.split)

lemma html_report_not_dir: "html_report t \<noteq> report_dir"
  by (simp add: html_report_def)

lemma write_file_ok:
  assumes "fs p \<noteq> Some Dir"
  shows "write_file p doc fs = Inr (fs(p \<mapsto> File doc))"
proof (cases "fs p")
  case None
  then show ?thesis by (simp add: write_file_def)
next
  case (Some n)
  then show ?thesis
    using assms by (cases n) (simp_all add: write_file_def)
qed

lemma generate_report_completes:
  assumes "fs report_dir = None \<or> fs report_dir = Some Dir"
    and "fs (html_report t_file) \<noteq> Some Dir"
  shows "generate_report results t_file t_date fs out log =
           \<lparr>ending = Completed, console = out @ [Report_saved (html_report t_file)],
            files = (fs(report_dir \<mapsto> Dir))
                      (html_report t_file \<mapsto> File (render (strftime_date t_date) results)),
            driver_calls = log\<rparr>"
proof -
  have m: "makedirs report_dir fs = Inr (fs(report_dir \<mapsto> Dir))"
    using assms(1) by (auto simp add: makedirs_def fun_upd_idem)
  have "(fs(report_dir \<mapsto> Dir)) (html_report t_file) \<noteq> Some Dir"
    using assms(2) html_report_not_dir [of t_file] by simp
  then have "write_file (html_report t_file) (render (strftime_date t_date) results)
        (fs(report_dir \<mapsto> Dir)) =
      Inr ((fs(report_dir \<mapsto> Dir))
             (html_report t_file \<mapsto> File (render (strftime_date t_date) results)))"
    by (rule write_file_ok)
  then show ?thesis
    by (simp add: generate_report_def m)
qed

text \<open>
  C6. When \<^verbatim>\<open>connect\<close> raises \<^verbatim>\<open>cx_Oracle.Error\<close>, the script ends by \<^verbatim>\<open>exit(1)\<close>: the
  exit code is 1, the last line printed is the diagnostic with the error, the driver has
  been called once (one \<^verbatim>\<open>connect\<close>, no second attempt), and the file system is the one
  the script found: no directory and no report. When \<^verbatim>\<open>connect\<close> returns a session and
  the file system lets the report be written (the report directory is absent or a directory,
  and the report's path is not a directory), the script runs to its end: the exit code is 0 and
  the report at its path is the rendering of the audit's results.
\<close>

theorem connection_failure_exits_with_one:
  "(connect drv (user inp) (password inp) (dsn_of drv inp) = Inl err \<longrightarrow>
      ending (script drv catalog inp t_file t_date fs) = Sys_exit 1 \<and>
      exit_code (ending (script drv catalog inp t_file t_date fs)) = 1 \<and>
      console (script drv catalog inp t_file t_date fs)
        = [Banner, Connecting, Connection_failed err] \<and>
      driver_calls (script drv catalog inp t_file t_date fs)
        = [Connect (user inp) (password inp) (dsn_of drv inp)] \<and>
      files (script drv catalog inp t_file t_date fs) = fs) \<and>
   (connect drv (user inp) (password inp) (dsn_of drv inp) = Inr d0 \<and>
    (fs report_dir = None \<or> fs report_dir = Some Dir) \<and> fs (html_report t_file) \<noteq> Some Dir \<longrightarrow>
      ending (script drv catalog inp t_file t_date fs) = Completed \<and>
      exit_code (ending (script drv catalog inp t_file t_date fs)) = 0 \<and>
      files (script drv catalog inp t_file t_date fs) (html_report t_file)
        = Some (File (render (strftime_date t_date)
            (fst (audit drv catalog
               \<lparr>db = d0, calls = [Connect (user inp) (password inp) (dsn_of drv inp), Cursor]\<rparr>)))))"
proof (intro conjI impI)
  assume "connect drv (user inp) (password inp) (dsn_of drv inp) = Inl err"
  then have run: "script drv catalog inp t_file t_date fs =
      \<lparr>ending = Sys_exit 1, console = [Banner, Connecting, Connection_failed err], files = fs,
       driver_calls = [Connect (user inp) (password inp) (dsn_of drv inp)]\<rparr>"
    by (simp add: script_def)
  show "ending (script drv catalog inp t_file t_date fs) = Sys_exit 1"
    and "exit_code (ending (script drv catalog inp t_file t_date fs)) = 1"
    and "console (script drv catalog inp t_file t_date fs)
        = [Banner, Connecting, Connection_failed err]"
    and "driver_calls (script drv catalog inp t_file t_date fs)
        = [Connect (user inp) (password inp) (dsn_of drv inp)]"
    and "files (script drv catalog inp t_file t_date fs) = fs"
    unfolding run by simp_all
next
  let ?s0 = "\<lparr>db = d0, calls = [Connect (user inp) (password inp) (dsn_of drv inp), Cursor]\<rparr>"
  assume a: "connect drv (user inp) (password inp) (dsn_of drv inp) = Inr d0 \<and>
    (fs report_dir = None \<or> fs report_dir = Some Dir) \<and> fs (html_report t_file) \<noteq> Some Dir"
  obtain results s where au: "audit drv catalog ?s0 = (results, s)"
    by (cases "audit drv catalog ?s0")
  have "script drv catalog inp t_file t_date fs =
      generate_report results t_file t_date fs [Banner, Connecting, Connected]
        (calls s @ [Cursor_close, Connection_close])"
    using a au by (simp add: script_def)
  then have run: "script drv catalog inp t_file t_date fs =
      \<lparr>ending = Completed,
       console = [Banner, Connecting, Connected] @ [Report_saved (html_report t_file)],
       files = (fs(report_dir \<mapsto> Dir))
                 (html_report t_file \<mapsto> File (render (strftime_date t_date) results)),
       driver_calls = calls s @ [Cursor_close, Connection_close]\<rparr>"
    using a generate_report_completes [of fs t_file results t_date] by simp
  show "ending (script drv catalog inp t_file t_date fs) = Completed"
    and "exit_code (ending (script drv catalog inp t_file t_date fs)) = 0"
    and "files (script drv catalog inp t_file t_date fs) (html_report t_file)
        = Some (File (render (strftime_date t_date) (fst (audit drv catalog ?s0))))"
    unfolding run using au by simp_all
qed

theorem connection_failure_exits_with_one_witness:
  "connect demo_driver (user wrong_inputs) (password wrong_inputs) (dsn_of demo_driver wrong_inputs)
     = Inl ''ORA-01017: invalid username/password; logon denied'' \<and>
   exit_code (ending (main demo_driver wrong_inputs demo_time demo_time empty_fs)) = 1 \<and>
   console (main demo_driver wrong_inputs demo_time demo_time empty_fs)
     = [Banner, Connecting,
        Connection_failed ''ORA-01017: invalid username/password; logon denied''] \<and>
   driver_calls (main demo_driver wrong_inputs demo_time demo_time empty_fs)
     = [Connect ''scott'' ''lion'' ''dbhost:1521/ORCL''] \<and>
   files (main demo_driver wrong_inputs demo_time demo_time empty_fs) = empty_fs \<and>
   connect demo_driver (user demo_inputs) (password demo_inputs) (dsn_of demo_driver demo_inputs)
     = Inr 0 \<and>
   empty_fs report_dir = None \<and> empty_fs (html_report demo_time) \<noteq> Some Dir \<and>
   exit_code (ending (main demo_driver demo_inputs demo_time demo_time empty_fs)) = 0 \<and>
   html_report demo_time = ''cis_html_reports/oracle_cis_report_20240309_140500.html''"
proof -
  have bad: "connect demo_driver (user wrong_inputs) (password wrong_inputs)
      (dsn_of demo_driver wrong_inputs)
     = Inl ''ORA-01017: invalid username/password; logon denied''"
    by (simp add: demo_driver_def wrong_inputs_def)
  have dsn: "dsn_of demo_driver wrong_inputs = ''dbhost:1521/ORCL''"
    by (simp add: dsn_of_def port_or_default_def demo_driver_def wrong_inputs_def)
  have good: "connect demo_driver (user demo_inputs) (password demo_inputs)
      (dsn_of demo_driver demo_inputs) = Inr 0"
    by (simp add: demo_driver_def demo_inputs_def)
  have fs: "empty_fs report_dir = None" "empty_fs (html_report demo_time) \<noteq> Some Dir"
    by (simp_all add: empty_fs_def)
  have path: "html_report demo_time = ''cis_html_reports/oracle_cis_report_20240309_140500.html''"
    by (simp add: html_report_def report_dir_def strftime_file_def pad2_def demo_time_def dec.simps)
  show ?thesis
    using connection_failure_exits_with_one
        [of demo_driver wrong_inputs "''ORA-01017: invalid username/password; logon denied''"
          cis_checks demo_time demo_time empty_fs 0]
      connection_failure_exits_with_one
        [of demo_driver demo_inputs "''x''" cis_checks demo_time demo_time empty_fs 0]
      bad good fs path dsn
    by (simp add: wrong_inputs_def main_def)
qed


section \<open>The calls made to the driver\<close>

lemma run_check_calls:
  "\<exists>qs. calls (snd (run_check drv c s)) = calls s @ qs \<and> executed qs = [c_query c] \<and>
        Cursor_close \<notin> set qs \<and> Connection_close \<notin> set qs"
proof -
  obtain e d where ex: "execute drv (db s) (c_query c) = (e, d)"
    by (cases "execute drv (db s) (c_query c)")
  obtain r d' where fe: "fetchall drv d = (r, d')"
    by (cases "fetchall drv d")
  show ?thesis
  proof (cases e)
    case None
    then have "calls (snd (run_check drv c s)) = calls s @ [Execute (c_query c), Fetchall]"
      using ex fe
      by (simp add: run_check_def try_query_def cursor_execute_def cursor_fetchall_def)
    moreover have "executed [Execute (c_query c), Fetchall] = [c_query c]"
      by simp
    ultimately show ?thesis
      by (intro exI [of _ "[Execute (c_query c), Fetchall]"]) simp
  next
    case (Some msg)
    then have "calls (snd (run_check drv c s)) = calls s @ [Execute (c_query c)]"
      using ex by (simp add: run_check_def try_query_def cursor_execute_def)
    then show ?thesis
      by (intro exI [of _ "[Execute (c_query c)]"]) simp
  qed
qed

lemma executed_append: "executed (xs @ ys) = executed xs @ executed ys"
  by (induction xs rule: executed.induct) simp_all

lemma audit_calls:
  "\<exists>qs. calls (snd (audit drv catalog s)) = calls s @ qs \<and> executed qs = map c_query catalog \<and>
        Cursor_close \<notin> set qs \<and> Connection_close \<notin> set qs"
proof (induction catalog arbitrary: s)
  case Nil
  show ?case by (simp add: audit_Nil)
next
  case (Cons c catalog)
  let ?s1 = "snd (run_check drv c s)"
  obtain q1 where q1: "calls ?s1 = calls s @ q1" "executed q1 = [c_query c]"
      "Cursor_close \<notin> set q1" "Connection_close \<notin> set q1"
    using run_check_calls [of drv c s] by blast
  obtain q2 where q2: "calls (snd (audit drv catalog ?s1)) = calls ?s1 @ q2"
      "executed q2 = map c_query catalog" "Cursor_close \<notin> set q2" "Connection_close \<notin> set q2"
    using Cons.IH [of ?s1] by blast
  have "calls (snd (audit drv (c # catalog) s)) = calls s @ (q1 @ q2)"
    using q1(1) q2(1) by (simp add: audit_Cons)
  moreover have "executed (q1 @ q2) = map c_query (c # catalog)"
    using q1(2) q2(2) by (simp add: executed_append)
  moreover have "Cursor_close \<notin> set (q1 @ q2)" "Connection_close \<notin> set (q1 @ q2)"
    using q1(3,4) q2(3,4) by simp_all
  ultimately show ?case
    by blast
qed

text \<open>
  C7. When \<^verbatim>\<open>connect\<close> returns a session, the calls the script makes to the driver are:
  \<^verbatim>\<open>connect\<close>, \<^verbatim>\<open>cursor\<close>, then the calls of the audit loop, among which the statements
  executed are the queries of the catalog, one per check and in catalog order, and no
  \<^verbatim>\<open>close\<close>; then \<^verbatim>\<open>cursor.close\<close> and \<^verbatim>\<open>connection.close\<close>, with which the log ends. So
  \<^verbatim>\<open>connection.close\<close> is called exactly once, after the last check, for every driver:
  whichever queries raise, and whether or not the report can be written afterwards.
\<close>

theorem session_closed_once_after_all_checks:
  assumes "connect drv (user inp) (password inp) (dsn_of drv inp) = Inr d0"
  shows "(\<exists>qs. driver_calls (script drv catalog inp t_file t_date fs) =
                [Connect (user inp) (password inp) (dsn_of drv inp), Cursor] @ qs @
                [Cursor_close, Connection_close] \<and>
              executed qs = map c_query catalog \<and>
              Cursor_close \<notin> set qs \<and> Connection_close \<notin> set qs) \<and>
         count_list (driver_calls (script drv catalog inp t_file t_date fs)) Connection_close = 1"
proof -
  let ?s0 = "\<lparr>db = d0, calls = [Connect (user inp) (password inp) (dsn_of drv inp), Cursor]\<rparr>"
  obtain qs where qs: "calls (snd (audit drv catalog ?s0)) = calls ?s0 @ qs"
      "executed qs = map c_query catalog" "Cursor_close \<notin> set qs" "Connection_close \<notin> set qs"
    using audit_calls [of drv catalog ?s0] by blast
  obtain results s where au: "audit drv catalog ?s0 = (results, s)"
    by (cases "audit drv catalog ?s0")
  have "driver_calls (script drv catalog inp t_file t_date fs) =
      calls s @ [Cursor_close, Connection_close]"
    using assms au by (simp add: script_def generate_report_calls)
  then have "driver_calls (script drv catalog inp t_file t_date fs) =
      [Connect (user inp) (password inp) (dsn_of drv inp), Cursor] @ qs @
      [Cursor_close, Connection_close]"
    using qs(1) au by simp
  moreover from this have
    "count_list (driver_calls (script drv catalog inp t_file t_date fs)) Connection_close = 1"
    using qs(4) by (simp add: count_list_0_iff)
  ultimately show ?thesis
    using qs(2,3,4) by blast
qed

theorem session_closed_once_after_all_checks_witness:
  "connect demo_driver (user demo_inputs) (password demo_inputs) (dsn_of demo_driver demo_inputs)
     = Inr 0 \<and>
   (\<exists>qs. driver_calls
            (script demo_driver [demo_check, failing_check, demo_check] demo_inputs
               demo_time demo_time empty_fs) =
          [Connect ''scott'' ''tiger'' ''dbhost:1521/ORCL'', Cursor] @ qs @
          [Cursor_close, Connection_close] \<and>
        executed qs = [''SELECT 1 FROM DUAL'', ''SELECT grantee FROM dba_role_privs'',
                       ''SELECT 1 FROM DUAL''] \<and>
        Cursor_close \<notin> set qs \<and> Connection_close \<notin> set qs) \<and>
   count_list
     (driver_calls
        (script demo_driver [demo_check, failing_check, demo_check] demo_inputs
           demo_time demo_time empty_fs)) Connection_close = 1"
proof -
  have good: "connect demo_driver (user demo_inputs) (password demo_inputs)
      (dsn_of demo_driver demo_inputs) = Inr 0"
    by (simp add: demo_driver_def demo_inputs_def)
  have dsn: "dsn_of demo_driver demo_inputs = ''dbhost:1521/ORCL''"
    by (simp add: dsn_of_def port_or_default_def demo_driver_def demo_inputs_def)
  have who: "user demo_inputs = ''scott''" "password demo_inputs = ''tiger''"
    by (simp_all add: demo_inputs_def)
  have queries: "map c_query [demo_check, failing_check, demo_check] =
      [''SELECT 1 FROM DUAL'', ''SELECT grantee FROM dba_role_privs'', ''SELECT 1 FROM DUAL'']"
    by (simp add: demo_check_def failing_check_def)
  show ?thesis
    using session_closed_once_after_all_checks
        [OF good, of "[demo_check, failing_check, demo_check]" demo_time demo_time empty_fs]
      good
    unfolding dsn who queries by simp
qed

end
